theory Spec2Isabelle
  imports Complex_Main "HOL-Library.Multiset" "HOL-Library.Log_Nat"
begin

section \<open>Data model of the calorie tracker (src/app/page.tsx)\<close>

text \<open>
  The page keeps its data in React state variables and mutates meals and ingredients
  in place. The embedding passes the state explicitly: every handler takes the state
  and returns the new one, and a handler that throws returns \<open>Inl\<close> of the exception.

  A TypeScript \<open>number\<close> is a double. It is modelled by the rational it denotes,
  and the sums, products and quotients of the code round their result to the nearest
  double, as the section on arithmetic below defines. The values \<open>NaN\<close> and
  \<open>Infinity\<close> are not modelled: no result is taken to reach \<open>2 ^ 1024\<close>, and the
  code divides by positive numbers only. Optional fields are \<open>option\<close> values.
\<close>

type_synonym number = rat

record Nutrients =
  calories :: number
  protein :: number
  carbs :: number
  fat :: number

record FoodMeasure =
  label :: "string option"
  measure_portionDescription :: "string option"
  measure_unit :: "string option"
  measure_gramWeight :: "number option"
  gram_weight :: "number option"

record AiSelectedPortion =
  gramWeight :: number
  portionDescription :: string
  reasoning :: "string option"

record Ingredient =
  name :: string
  brand :: string
  serving_info :: string
  nutrients :: Nutrients
  originalNutrients :: "Nutrients option"
  foodMeasures :: "FoodMeasure list"
  selectedPortion :: "(string option \<times> string option) option"
  ai_selected_portion :: "AiSelectedPortion option"

record Meal =
  meal_name :: string
  meal_size :: "string option"
  ingredients :: "Ingredient list"
  total_nutrients :: Nutrients

text \<open>
  The response of the service is typed \<open>{dailyTotals, loggedMeals}\<close>, but \<open>logFood\<close>
  tests both fields at run time, so either may be missing.
\<close>

record ApiResponse =
  api_dailyTotals :: "Nutrients option"
  api_loggedMeals :: "Meal list option"

text \<open>
  The state variables of \<open>CalorieTracker\<close> that the handlers below read or write.
  The loading flag and the progress display are presentation only and are left out.
\<close>

record CalorieTracker =
  foodInput :: string
  error :: string
  dailyTotals :: Nutrients
  loggedMeals :: "Meal list"

datatype js_error = TypeError | Error string

definition zeroNutrients :: Nutrients where
  "zeroNutrients = \<lparr>calories = 0, protein = 0, carbs = 0, fat = 0\<rparr>"

text \<open>The initial values given to \<open>useState\<close>.\<close>

definition initialState :: CalorieTracker where
  "initialState = \<lparr>foodInput = [], error = [], dailyTotals = zeroNutrients, loggedMeals = []\<rparr>"

section \<open>Arithmetic on doubles\<close>

text \<open>\<open>2 ^ k\<close> for an integer \<open>k\<close>.\<close>

definition pow2 :: "int \<Rightarrow> rat" where
  "pow2 k = (if 0 \<le> k then 2 ^ nat k else 1 / 2 ^ nat (- k))"

text \<open>The binary exponent of a positive \<open>x\<close>: the \<open>e\<close> with \<open>2 ^ e \<le> x < 2 ^ (e + 1)\<close>.\<close>

definition ilog2 :: "rat \<Rightarrow> int" where
  "ilog2 x = (if 1 \<le> x then bitlen \<lfloor>x\<rfloor> - 1 else - bitlen (\<lceil>1 / x\<rceil> - 1))"

text \<open>The nearest integer, a tie going to the even one.\<close>

definition roundHalfEven :: "rat \<Rightarrow> int" where
  "roundHalfEven t =
     (let f = \<lfloor>t\<rfloor>; r = t - of_int f
      in if r < 1 / 2 then f
         else if 1 / 2 < r then f + 1
         else if even f then f else f + 1)"

text \<open>
  The double nearest to \<open>x\<close> (IEEE 754 binary64, round to nearest, ties to even):
  a multiple of \<open>2 ^ (e - 52)\<close> where \<open>e\<close> is the exponent of \<open>x\<close>, and of
  \<open>2 ^ (- 1074)\<close> in the subnormal range. This is also how a number literal is read.
\<close>

definition toDouble :: "rat \<Rightarrow> number" where
  "toDouble x =
     (if x = 0 then 0
      else let q = pow2 (max (ilog2 \<bar>x\<bar>) (- 1022) - 52)
           in of_int (roundHalfEven (x / q)) * q)"

text \<open>
  The operators \<open>+\<close>, \<open>*\<close> and \<open>/\<close> of the code: the exact result of the operation on
  two doubles, rounded to a double. The numbers that enter the program (the fields of
  a response, a gram weight the user chooses) are doubles; an argument that is not a
  double stands for the double nearest to it.
\<close>

definition dadd :: "number \<Rightarrow> number \<Rightarrow> number" where
  "dadd a b = toDouble (toDouble a + toDouble b)"

definition dmul :: "number \<Rightarrow> number \<Rightarrow> number" where
  "dmul a b = toDouble (toDouble a * toDouble b)"

definition ddiv :: "number \<Rightarrow> number \<Rightarrow> number" where
  "ddiv a b = toDouble (toDouble a / toDouble b)"

section \<open>Nutrient aggregation\<close>

text \<open>One round of the \<open>forEach\<close> bodies: the four fields are added to the running totals.\<close>

definition addNutrients :: "Nutrients \<Rightarrow> Nutrients \<Rightarrow> Nutrients" where
  "addNutrients totals n =
     \<lparr>calories = dadd (calories totals) (calories n),
      protein = dadd (protein totals) (protein n),
      carbs = dadd (carbs totals) (carbs n),
      fat = dadd (fat totals) (fat n)\<rparr>"

text \<open>The loop of \<open>recalculateMealTotals\<close> (lines 184 to 191), from the zero totals.\<close>

definition sumIngredients :: "Ingredient list \<Rightarrow> Nutrients" where
  "sumIngredients ings = foldl (\<lambda>totals ingredient. addNutrients totals (nutrients ingredient)) zeroNutrients ings"

text \<open>The loop of \<open>recalculateDailyTotals\<close> (lines 109 to 115).\<close>

definition sumMeals :: "Meal list \<Rightarrow> Nutrients" where
  "sumMeals meals = foldl (\<lambda>totals meal. addNutrients totals (total_nutrients meal)) zeroNutrients meals"

definition recalculateDailyTotals :: "Meal list \<Rightarrow> CalorieTracker \<Rightarrow> CalorieTracker" where
  "recalculateDailyTotals meals s = s\<lparr>dailyTotals := sumMeals meals\<rparr>"

text \<open>
  \<open>updatedMeals[mealIndex]\<close> is \<open>undefined\<close> out of range, and reading its
  \<open>ingredients\<close> then throws a TypeError.
\<close>

definition recalculateMealTotals :: "nat \<Rightarrow> Meal list \<Rightarrow> js_error + Meal list" where
  "recalculateMealTotals mealIndex updatedMeals =
     (if mealIndex < length updatedMeals then
        let meal = updatedMeals ! mealIndex;
            totals = sumIngredients (ingredients meal)
        in Inr (updatedMeals[mealIndex := meal\<lparr>total_nutrients := totals\<rparr>])
      else Inl TypeError)"

section \<open>Removing a meal\<close>

text \<open>\<open>loggedMeals.filter((_, i) => i !== index)\<close>: the meals paired with their positions.\<close>

definition filterIndex :: "nat \<Rightarrow> 'a list \<Rightarrow> 'a list" where
  "filterIndex index xs = map fst (filter (\<lambda>(_, i). i \<noteq> index) (zip xs [0..<length xs]))"

definition removeMeal :: "nat \<Rightarrow> CalorieTracker \<Rightarrow> CalorieTracker" where
  "removeMeal index s =
     (let newMeals = filterIndex index (loggedMeals s)
      in recalculateDailyTotals newMeals (s\<lparr>loggedMeals := newMeals\<rparr>))"

section \<open>Portion rescaling\<close>

subsection \<open>The reference gram weight (lines 229 to 244)\<close>

definition isDigit :: "char \<Rightarrow> bool" where
  "isDigit c = (c \<in> set ''0123456789'')"

text \<open>
  The pattern \<open>/(\d+)g/\<close> tried at the start of \<open>s\<close>: \<open>\d+\<close> is greedy, so it first
  takes all \<open>n\<close> leading digits and then gives them back one at a time, until the
  character after the digits taken is \<open>g\<close>.
\<close>

fun digitsThenG :: "string \<Rightarrow> nat \<Rightarrow> string option" where
  "digitsThenG s 0 = None"
| "digitsThenG s (Suc n) =
     (if take 1 (drop (Suc n) s) = ''g'' then Some (take (Suc n) s) else digitsThenG s n)"

definition matchAt :: "string \<Rightarrow> string option" where
  "matchAt s = digitsThenG s (length (takeWhile isDigit s))"

text \<open>
  \<open>servingInfo.match(/(\d+)g/)\<close>: the start positions are tried from left to right and
  the first one that matches wins; the result is capture group 1, or \<open>None\<close> for \<open>null\<close>.
\<close>

fun gramMatch :: "string \<Rightarrow> string option" where
  "gramMatch [] = None"
| "gramMatch (c # cs) =
     (case matchAt (c # cs) of Some ds \<Rightarrow> Some ds | None \<Rightarrow> gramMatch cs)"

definition digitValue :: "char \<Rightarrow> nat" where
  "digitValue c = of_char c - 48"

text \<open>\<open>parseFloat\<close> on a string of decimal digits, the only strings the pattern captures.\<close>

definition parseFloatDigits :: "string \<Rightarrow> number" where
  "parseFloatDigits ds = of_nat (foldl (\<lambda>a c. 10 * a + digitValue c) 0 ds)"

text \<open>\<open>a || rest\<close> for an optional number \<open>a\<close>: \<open>undefined\<close> and \<open>0\<close> are falsy.\<close>

definition orNumber :: "number option \<Rightarrow> number \<Rightarrow> number" where
  "orNumber a rest = (case a of None \<Rightarrow> rest | Some g \<Rightarrow> if g \<noteq> 0 then g else rest)"

text \<open>The \<open>else\<close> branch, lines 235 to 239.\<close>

definition servingInfoGramWeight :: "Ingredient \<Rightarrow> number" where
  "servingInfoGramWeight ingredient =
     (case gramMatch (serving_info ingredient) of
        Some ds \<Rightarrow> parseFloatDigits ds
      | None \<Rightarrow> 0)"

text \<open>The value of the local variable \<open>originalGramWeight\<close> when line 246 is reached.\<close>

definition originalGramWeight :: "Ingredient \<Rightarrow> number" where
  "originalGramWeight ingredient =
     (let w =
        (case ai_selected_portion ingredient of
           None \<Rightarrow> servingInfoGramWeight ingredient
         | Some p \<Rightarrow>
             if gramWeight p \<noteq> 0 then gramWeight p else servingInfoGramWeight ingredient)
      in if w = 0 then
           (case foodMeasures ingredient of
              [] \<Rightarrow> w
            | m # _ \<Rightarrow> orNumber (measure_gramWeight m) (orNumber (gram_weight m) 0))
         else w)"

subsection \<open>Rescaling and resetting an ingredient\<close>

text \<open>\<open>Math.round\<close>: the nearest integer, a tie going up.\<close>

definition Math_round :: "number \<Rightarrow> number" where
  "Math_round x = of_int \<lfloor>x + 1 / 2\<rfloor>"

text \<open>The object \<open>newNutrients\<close>, lines 253 to 258.\<close>

definition newNutrients :: "Nutrients \<Rightarrow> number \<Rightarrow> Nutrients" where
  "newNutrients orig multiplier =
     \<lparr>calories = Math_round (dmul (calories orig) multiplier),
      protein = ddiv (Math_round (dmul (dmul (protein orig) multiplier) 10)) 10,
      carbs = ddiv (Math_round (dmul (dmul (carbs orig) multiplier) 10)) 10,
      fat = ddiv (Math_round (dmul (dmul (fat orig) multiplier) 10)) 10\<rparr>"

text \<open>
  Lines 249 to 251: \<open>ingredient.originalNutrients\<close> once the snapshot has been taken,
  which happens only when the field is still unset.
\<close>

definition snapshot :: "Ingredient \<Rightarrow> Nutrients" where
  "snapshot ingredient =
     (case originalNutrients ingredient of
        None \<Rightarrow> nutrients ingredient
      | Some n \<Rightarrow> n)"

text \<open>An assignment to \<open>meals[mealIndex].ingredients[ingredientIndex]\<close>, made in place.\<close>

definition setIngredient :: "nat \<Rightarrow> nat \<Rightarrow> Ingredient \<Rightarrow> Meal list \<Rightarrow> Meal list" where
  "setIngredient mealIndex ingredientIndex ingredient meals =
     meals[mealIndex :=
       (meals ! mealIndex)\<lparr>ingredients :=
          (ingredients (meals ! mealIndex))[ingredientIndex := ingredient]\<rparr>]"

text \<open>
  The common tail of both handlers (lines 260 to 263 and 216 to 219): the changed
  ingredient is in place, the totals of its meal are recomputed, the meal list is
  stored and the daily totals are recomputed from it.
\<close>

definition storeIngredient ::
  "nat \<Rightarrow> nat \<Rightarrow> Ingredient \<Rightarrow> Meal list \<Rightarrow> CalorieTracker \<Rightarrow> js_error + CalorieTracker" where
  "storeIngredient mealIndex ingredientIndex ingredient meals s =
     (case recalculateMealTotals mealIndex
             (setIngredient mealIndex ingredientIndex ingredient meals) of
        Inl e \<Rightarrow> Inl e
      | Inr updatedMeals \<Rightarrow>
          Inr (recalculateDailyTotals updatedMeals (s\<lparr>loggedMeals := updatedMeals\<rparr>)))"

text \<open>
  Reading \<open>meals[mealIndex].ingredients[ingredientIndex]\<close> gives \<open>undefined\<close> when an
  index is out of range, and the first property read from it throws a TypeError before
  anything has been changed.
\<close>

definition recalculateIngredientNutrition ::
  "nat \<Rightarrow> nat \<Rightarrow> number \<Rightarrow> Meal list \<Rightarrow> CalorieTracker \<Rightarrow> js_error + CalorieTracker" where
  "recalculateIngredientNutrition mealIndex ingredientIndex selectedGramWeight meals s =
     (if mealIndex < length meals \<and> ingredientIndex < length (ingredients (meals ! mealIndex)) then
        let ingredient = ingredients (meals ! mealIndex) ! ingredientIndex;
            w = originalGramWeight ingredient
        in if w > 0 \<and> selectedGramWeight > 0 then
             let multiplier = ddiv selectedGramWeight w;
                 orig = snapshot ingredient
             in storeIngredient mealIndex ingredientIndex
                  (ingredient\<lparr>originalNutrients := Some orig,
                              nutrients := newNutrients orig multiplier\<rparr>)
                  meals s
           else Inr s
      else Inl TypeError)"

definition resetToOriginalNutrition :: "nat \<Rightarrow> nat \<Rightarrow> CalorieTracker \<Rightarrow> js_error + CalorieTracker" where
  "resetToOriginalNutrition mealIndex ingredientIndex s =
     (let newMeals = loggedMeals s
      in if mealIndex < length newMeals
            \<and> ingredientIndex < length (ingredients (newMeals ! mealIndex)) then
           let ingredient = ingredients (newMeals ! mealIndex) ! ingredientIndex
           in (case originalNutrients ingredient of
                 None \<Rightarrow> Inr s
               | Some orig \<Rightarrow>
                   storeIngredient mealIndex ingredientIndex
                     (ingredient\<lparr>nutrients := orig\<rparr>) newMeals s)
         else Inl TypeError)"

definition selectMeasurement ::
  "nat \<Rightarrow> nat \<Rightarrow> nat \<Rightarrow> number \<Rightarrow> CalorieTracker \<Rightarrow> js_error + CalorieTracker" where
  "selectMeasurement mealIndex ingredientIndex measureIndex gw s =
     recalculateIngredientNutrition mealIndex ingredientIndex gw (loggedMeals s) s"

definition handleCustomGramInput ::
  "nat \<Rightarrow> nat \<Rightarrow> number \<Rightarrow> CalorieTracker \<Rightarrow> js_error + CalorieTracker" where
  "handleCustomGramInput mealIndex ingredientIndex customGrams s =
     (if customGrams > 0 then
        recalculateIngredientNutrition mealIndex ingredientIndex customGrams (loggedMeals s) s
      else resetToOriginalNutrition mealIndex ingredientIndex s)"

section \<open>Logging food\<close>

text \<open>
  What the request to the service came to: \<open>fetch\<close> or \<open>response.json()\<close> threw an
  Error with a message, the status was not ok and the body carried an optional
  \<open>error\<close> text, or the status was ok and the body was parsed.
\<close>

datatype fetch_outcome = Rejected string | NotOk "string option" | Ok ApiResponse

definition isSpace :: "char \<Rightarrow> bool" where
  "isSpace c = (of_char c \<in> {9, 10, 11, 12, 13, 32 :: nat})"

text \<open>\<open>String.prototype.trim\<close>, on the white space of ASCII.\<close>

definition trim :: "string \<Rightarrow> string" where
  "trim s = rev (dropWhile isSpace (rev (dropWhile isSpace s)))"

text \<open>The body of the \<open>try\<close> block from line 143 on; \<open>Inl\<close> is the message of the Error thrown.\<close>

definition logFood_try :: "CalorieTracker \<Rightarrow> fetch_outcome \<Rightarrow> string + CalorieTracker" where
  "logFood_try s outcome =
     (case outcome of
        Rejected msg \<Rightarrow> Inl msg
      | NotOk errorData \<Rightarrow>
          Inl (case errorData of
                 None \<Rightarrow> ''Failed to process food data''
               | Some m \<Rightarrow> if m \<noteq> [] then m else ''Failed to process food data'')
      | Ok data \<Rightarrow>
          (case api_dailyTotals data of
             None \<Rightarrow> Inl ''Invalid response format from AI. Please try again.''
           | Some _ \<Rightarrow>
               (case api_loggedMeals data of
                  None \<Rightarrow> Inl ''Invalid response format from AI. Please try again.''
                | Some batch \<Rightarrow>
                    let newMeals = loggedMeals s @ batch
                    in Inr ((recalculateDailyTotals newMeals (s\<lparr>loggedMeals := newMeals\<rparr>))
                              \<lparr>foodInput := []\<rparr>))))"

definition logFood :: "CalorieTracker \<Rightarrow> fetch_outcome \<Rightarrow> CalorieTracker" where
  "logFood s outcome =
     (if trim (foodInput s) = [] then s\<lparr>error := ''Please enter what you ate''\<rparr>
      else
        (case logFood_try (s\<lparr>error := []\<rparr>) outcome of
           Inl msg \<Rightarrow> s\<lparr>error := msg\<rparr>
         | Inr s' \<Rightarrow> s'))"

section \<open>The store as a state machine\<close>

text \<open>
  The user's actions. An exception thrown by a handler leaves the state variables as
  they were, since every handler sets them only after its last read that can throw.
  A submission and the arrival of its response are one event \<open>LogFood\<close>: the page
  is single-threaded and the model lets no other handler run in between.
\<close>

datatype event =
    SetFoodInput string
  | LogFood fetch_outcome
  | RemoveMeal nat
  | SelectMeasurement nat nat nat number
  | CustomGramInput nat nat number
  | ResetNutrition nat nat

definition orUnchanged :: "CalorieTracker \<Rightarrow> js_error + CalorieTracker \<Rightarrow> CalorieTracker" where
  "orUnchanged s r = (case r of Inl _ \<Rightarrow> s | Inr s' \<Rightarrow> s')"

fun step :: "CalorieTracker \<Rightarrow> event \<Rightarrow> CalorieTracker" where
  "step s (SetFoodInput input) = s\<lparr>foodInput := input\<rparr>"
| "step s (LogFood outcome) = logFood s outcome"
| "step s (RemoveMeal index) = removeMeal index s"
| "step s (SelectMeasurement mi ii k gw) = orUnchanged s (selectMeasurement mi ii k gw s)"
| "step s (CustomGramInput mi ii g) = orUnchanged s (handleCustomGramInput mi ii g s)"
| "step s (ResetNutrition mi ii) = orUnchanged s (resetToOriginalNutrition mi ii s)"

definition run :: "event list \<Rightarrow> CalorieTracker" where
  "run evs = foldl step initialState evs"

section \<open>Notions used to state the properties\<close>

text \<open>
  The sum of a list of numbers as the loops of the code compute it: from 0, in the
  order of the list, each addition rounded to a double.
\<close>

definition doubleSum :: "number list \<Rightarrow> number" where
  "doubleSum vs = foldl dadd 0 vs"

text \<open>The element-wise sum of a list of nutrient vectors.\<close>

definition elementwiseSum :: "Nutrients list \<Rightarrow> Nutrients" where
  "elementwiseSum ns =
     \<lparr>calories = doubleSum (map calories ns),
      protein = doubleSum (map protein ns),
      carbs = doubleSum (map carbs ns),
      fat = doubleSum (map fat ns)\<rparr>"

text \<open>
  A list of numbers that are all whole and not negative, with a total of at most
  \<open>2 ^ 53\<close>: no addition of such numbers, in any order, has to round.
\<close>

definition wholeNumbers :: "number list \<Rightarrow> bool" where
  "wholeNumbers vs =
     (list_all (\<lambda>v. 0 \<le> v \<and> v = of_int \<lfloor>v\<rfloor>) vs \<and> sum_list vs \<le> 2 ^ 53)"

definition wholeNutrients :: "Ingredient list \<Rightarrow> bool" where
  "wholeNutrients ings =
     (wholeNumbers (map (\<lambda>i. calories (nutrients i)) ings)
      \<and> wholeNumbers (map (\<lambda>i. protein (nutrients i)) ings)
      \<and> wholeNumbers (map (\<lambda>i. carbs (nutrients i)) ings)
      \<and> wholeNumbers (map (\<lambda>i. fat (nutrients i)) ings))"

text \<open>A meal whose stored totals are the element-wise sum of its ingredients' nutrients.\<close>

definition mealConsistent :: "Meal \<Rightarrow> bool" where
  "mealConsistent meal =
     (total_nutrients meal = elementwiseSum (map nutrients (ingredients meal)))"

text \<open>An event whose meals, when it delivers any, all arrive with such totals.\<close>

fun consistentBatch :: "event \<Rightarrow> bool" where
  "consistentBatch (LogFood (Ok data)) =
     (case api_loggedMeals data of
        None \<Rightarrow> True
      | Some batch \<Rightarrow> list_all mealConsistent batch)"
| "consistentBatch _ = True"

text \<open>
  Where the meal at position \<open>mi\<close> is after an event: the removal of an earlier meal
  moves it down by one, its own removal ends it, and every other event leaves it.
\<close>

fun positionAfter :: "nat \<Rightarrow> event \<Rightarrow> nat option" where
  "positionAfter mi (RemoveMeal index) =
     (if index = mi then None else if index < mi then Some (mi - 1) else Some mi)"
| "positionAfter mi _ = Some mi"

fun trackMeal :: "nat \<Rightarrow> event list \<Rightarrow> nat option" where
  "trackMeal mi [] = Some mi"
| "trackMeal mi (ev # evs) =
     (case positionAfter mi ev of
        None \<Rightarrow> None
      | Some mi' \<Rightarrow> trackMeal mi' evs)"

text \<open>
  In \<open>s\<close>, the \<open>n\<close> characters from position \<open>i\<close> on are digits, there is at least
  one, and the character after them is \<open>g\<close>.
\<close>

definition digitsBeforeG :: "string \<Rightarrow> nat \<Rightarrow> nat \<Rightarrow> bool" where
  "digitsBeforeG s i n =
     (0 < n \<and> i + n < length s
      \<and> list_all isDigit (take n (drop i s))
      \<and> s ! (i + n) = CHR ''g'')"

text \<open>
  The first such sequence of digits in \<open>s\<close>: none starts at an earlier position.
\<close>

definition firstDigitsBeforeG :: "string \<Rightarrow> nat \<Rightarrow> nat \<Rightarrow> bool" where
  "firstDigitsBeforeG s i n =
     (digitsBeforeG s i n
      \<and> (\<forall>i' < i. \<forall>n' \<le> length s. \<not> digitsBeforeG s i' n'))"

section \<open>Sample data\<close>

text \<open>
  Concrete ingredients, meals and states, on which the theorems below are instantiated.
  A decimal that is not a double is written \<open>toDouble\<close> of its value, the double
  that the literal denotes.
\<close>

definition exOriginal :: Nutrients where
  "exOriginal = \<lparr>calories = 200, protein = 10, carbs = 20, fat = 5\<rparr>"

definition exIngredient :: Ingredient where
  "exIngredient =
     \<lparr>name = ''rice'', brand = ''generic'', serving_info = ''100g'',
      nutrients = \<lparr>calories = 400, protein = 20, carbs = 40, fat = 10\<rparr>,
      originalNutrients = Some exOriginal,
      foodMeasures = [], selectedPortion = None, ai_selected_portion = None\<rparr>"

definition exMeal :: Meal where
  "exMeal = \<lparr>meal_name = ''lunch'', meal_size = None, ingredients = [exIngredient],
             total_nutrients = \<lparr>calories = 400, protein = 20, carbs = 40, fat = 10\<rparr>\<rparr>"

definition exState :: CalorieTracker where
  "exState = \<lparr>foodInput = [], error = [],
              dailyTotals = \<lparr>calories = 400, protein = 20, carbs = 40, fat = 10\<rparr>,
              loggedMeals = [exMeal]\<rparr>"

definition exEgg :: Ingredient where
  "exEgg =
     \<lparr>name = ''egg'', brand = ''generic'', serving_info = ''1 large'',
      nutrients = \<lparr>calories = 143 / 2, protein = toDouble (157 / 25),
                   carbs = toDouble (9 / 25), fat = toDouble (119 / 25)\<rparr>,
      originalNutrients = None,
      foodMeasures = [], selectedPortion = None,
      ai_selected_portion =
        Some \<lparr>gramWeight = 50, portionDescription = ''1 large'', reasoning = None\<rparr>\<rparr>"

definition exEggMeal :: Meal where
  "exEggMeal = \<lparr>meal_name = ''breakfast'', meal_size = None, ingredients = [exEgg],
                total_nutrients = nutrients exEgg\<rparr>"

definition exEggState :: CalorieTracker where
  "exEggState = \<lparr>foodInput = [], error = [], dailyTotals = nutrients exEgg,
                 loggedMeals = [exEggMeal]\<rparr>"

definition exSoup :: Ingredient where
  "exSoup =
     \<lparr>name = ''soup'', brand = ''homemade'', serving_info = ''1 cup'',
      nutrients = \<lparr>calories = 120, protein = 4, carbs = 18, fat = 3\<rparr>,
      originalNutrients = None,
      foodMeasures = [], selectedPortion = None, ai_selected_portion = None\<rparr>"

definition exSoupMeal :: Meal where
  "exSoupMeal = \<lparr>meal_name = ''dinner'', meal_size = None, ingredients = [exSoup],
                 total_nutrients = nutrients exSoup\<rparr>"

definition exSoupState :: CalorieTracker where
  "exSoupState = \<lparr>foodInput = [], error = [], dailyTotals = nutrients exSoup,
                  loggedMeals = [exSoupMeal]\<rparr>"

definition exDay :: CalorieTracker where
  "exDay = \<lparr>foodInput = [], error = [],
            dailyTotals = sumMeals [exMeal, exEggMeal, exSoupMeal],
            loggedMeals = [exMeal, exEggMeal, exSoupMeal]\<rparr>"

text \<open>A meal as the service may send it, with totals that are not the sum of its ingredients.\<close>

definition exBadMeal :: Meal where
  "exBadMeal = \<lparr>meal_name = ''dinner'', meal_size = None, ingredients = [exSoup],
                total_nutrients = \<lparr>calories = 0, protein = 0, carbs = 0, fat = 0\<rparr>\<rparr>"

definition exBadResponse :: ApiResponse where
  "exBadResponse =
     \<lparr>api_dailyTotals = Some \<lparr>calories = 0, protein = 0, carbs = 0, fat = 0\<rparr>,
      api_loggedMeals = Some [exBadMeal]\<rparr>"

text \<open>A response without \<open>dailyTotals\<close>.\<close>

definition exNoTotals :: ApiResponse where
  "exNoTotals = \<lparr>api_dailyTotals = None, api_loggedMeals = Some [exEggMeal]\<rparr>"

text \<open>A session: a logged batch of two meals, a rescale of the rice, a removal.\<close>

definition exEvents :: "event list" where
  "exEvents =
     [SetFoodInput ''rice and an egg'',
      LogFood (Ok \<lparr>api_dailyTotals = Some \<lparr>calories = 1, protein = 2, carbs = 3, fat = 4\<rparr>,
                   api_loggedMeals = Some [exMeal, exEggMeal]\<rparr>),
      SelectMeasurement 0 0 0 150,
      RemoveMeal 1]"

text \<open>Ingredients with the three sources of a reference gram weight.\<close>

definition exBoth :: Ingredient where
  "exBoth =
     \<lparr>name = ''chicken'', brand = ''generic'', serving_info = ''100g serving'',
      nutrients = \<lparr>calories = 248, protein = 46, carbs = 0, fat = 5\<rparr>,
      originalNutrients = None,
      foodMeasures = [], selectedPortion = None,
      ai_selected_portion =
        Some \<lparr>gramWeight = 150, portionDescription = ''1 breast'', reasoning = None\<rparr>\<rparr>"

definition exSlices :: Ingredient where
  "exSlices =
     \<lparr>name = ''bread'', brand = ''generic'', serving_info = ''2 slices of 28 (56g)'',
      nutrients = \<lparr>calories = 150, protein = 5, carbs = 28, fat = 2\<rparr>,
      originalNutrients = None,
      foodMeasures =
        [\<lparr>label = Some ''slice'', measure_portionDescription = None, measure_unit = None,
          measure_gramWeight = Some 28, gram_weight = None\<rparr>],
      selectedPortion = None, ai_selected_portion = None\<rparr>"

definition exCup :: Ingredient where
  "exCup =
     \<lparr>name = ''milk'', brand = ''generic'', serving_info = ''1 cup, 0g sugar'',
      nutrients = \<lparr>calories = 150, protein = 8, carbs = 12, fat = 8\<rparr>,
      originalNutrients = None,
      foodMeasures =
        [\<lparr>label = Some ''cup'', measure_portionDescription = None, measure_unit = None,
          measure_gramWeight = None, gram_weight = Some 240\<rparr>],
      selectedPortion = None,
      ai_selected_portion =
        Some \<lparr>gramWeight = 0, portionDescription = ''1 cup'', reasoning = None\<rparr>\<rparr>"

text \<open>An ingredient as it arrives, never rescaled: 150 kcal and 15 g of protein per 100 g.\<close>

definition exOats :: Ingredient where
  "exOats =
     \<lparr>name = ''oats'', brand = ''generic'', serving_info = ''100g'',
      nutrients = \<lparr>calories = 150, protein = 15, carbs = 20, fat = 5\<rparr>,
      originalNutrients = None,
      foodMeasures = [], selectedPortion = None, ai_selected_portion = None\<rparr>"

definition exOatsMeal :: Meal where
  "exOatsMeal = \<lparr>meal_name = ''porridge'', meal_size = None, ingredients = [exOats],
                 total_nutrients = nutrients exOats\<rparr>"

definition exOatsState :: CalorieTracker where
  "exOatsState = \<lparr>foodInput = [], error = [], dailyTotals = nutrients exOats,
                  loggedMeals = [exOatsMeal]\<rparr>"

text \<open>Three ingredients with 0.1 g, 0.2 g and 0.3 g of protein.\<close>

definition exLemon :: Ingredient where
  "exLemon =
     \<lparr>name = ''lemon juice'', brand = ''generic'', serving_info = ''10g'',
      nutrients = \<lparr>calories = 2, protein = toDouble (1 / 10), carbs = 1, fat = 0\<rparr>,
      originalNutrients = None,
      foodMeasures = [], selectedPortion = None, ai_selected_portion = None\<rparr>"

definition exOnion :: Ingredient where
  "exOnion =
     \<lparr>name = ''onion'', brand = ''generic'', serving_info = ''20g'',
      nutrients = \<lparr>calories = 8, protein = toDouble (2 / 10), carbs = 2, fat = 0\<rparr>,
      originalNutrients = None,
      foodMeasures = [], selectedPortion = None, ai_selected_portion = None\<rparr>"

definition exLeek :: Ingredient where
  "exLeek =
     \<lparr>name = ''leek'', brand = ''generic'', serving_info = ''20g'',
      nutrients = \<lparr>calories = 12, protein = toDouble (3 / 10), carbs = 3, fat = 0\<rparr>,
      originalNutrients = None,
      foodMeasures = [], selectedPortion = None, ai_selected_portion = None\<rparr>"

text \<open>
  The rice, whose \<open>originalNutrients\<close> is set, arriving in a batch; then its first
  rescale in this store, and a reset.
\<close>

definition exRiceLogged :: "event list" where
  "exRiceLogged =
     [SetFoodInput ''rice'',
      LogFood (Ok \<lparr>api_dailyTotals = Some \<lparr>calories = 400, protein = 20, carbs = 40, fat = 10\<rparr>,
                   api_loggedMeals = Some [exMeal]\<rparr>)]"

text \<open>
  Two meals, the egg in the second. Rescales and a reset of the egg, with the removal
  of the first meal in between, after which the egg's meal is at position 0.
\<close>

definition exSoupEggState :: CalorieTracker where
  "exSoupEggState = \<lparr>foodInput = [], error = [],
                     dailyTotals = sumMeals [exSoupMeal, exEggMeal],
                     loggedMeals = [exSoupMeal, exEggMeal]\<rparr>"

definition exEggEvents :: "event list" where
  "exEggEvents =
     [SelectMeasurement 1 0 0 100, CustomGramInput 1 0 75, RemoveMeal 0,
      ResetNutrition 0 0, SelectMeasurement 0 0 1 20]"

section \<open>Auxiliary lemmas\<close>

subsection \<open>Doubles\<close>

lemma pow2_pos: "0 < pow2 k"
  by (simp add: pow2_def)

lemma pow2_nonpos: "k \<le> 0 \<Longrightarrow> pow2 k = 1 / 2 ^ nat (- k)"
  by (simp add: pow2_def)

lemma roundHalfEven_of_int: "roundHalfEven (of_int m) = m"
  by (simp add: roundHalfEven_def)

lemma toDouble_of_nat:
  assumes "n \<le> 2 ^ 53"
  shows "toDouble (of_nat n) = of_nat n"
proof (cases "n = 0")
  case True
  then show ?thesis by (simp add: toDouble_def)
next
  case False
  define b where "b = bitlen (int n)"
  have pos: "0 < int n"
    using False by simp
  have b1: "1 \<le> b"
    using pos bitlen_eq_zero_iff [of "int n"] bitlen_nonneg [of "int n"]
    unfolding b_def by linarith
  have e: "ilog2 (of_nat n) = b - 1"
    using False by (simp add: ilog2_def b_def)
  have q: "toDouble (of_nat n) =
      of_int (roundHalfEven (of_nat n / pow2 (b - 53))) * pow2 (b - 53)"
    using False b1 by (simp add: toDouble_def e Let_def max_def)
  show ?thesis
  proof (cases "n = 2 ^ 53")
    case True
    have "int n = 1 * 2 ^ 53"
      using True by simp
    then have "b = 54"
      unfolding b_def using bitlen_pow2 [of 1 53] by (simp add: bitlen_def floorlog_def)
    then have "pow2 (b - 53) = 2"
      by (simp add: pow2_def)
    moreover have "(of_nat n :: rat) / 2 = of_int (2 ^ 52)"
      using True by simp
    ultimately show ?thesis
      unfolding q using True by (simp only: roundHalfEven_of_int)
  next
    case neq: False
    then have "int n < 2 ^ 53"
      using assms by (simp add: order_less_le flip: of_nat_less_iff)
    then have "b \<le> 53"
      unfolding b_def using bitlen_le_iff_power [of "int n" 53] by simp
    define j where "j = nat (53 - b)"
    have p: "pow2 (b - 53) = 1 / 2 ^ j"
      using \<open>b \<le> 53\<close> pow2_nonpos [of "b - 53"] by (simp add: j_def)
    have "(of_nat n :: rat) / pow2 (b - 53) = of_int (int n * 2 ^ j)"
      by (simp add: p)
    then have "roundHalfEven (of_nat n / pow2 (b - 53)) = int n * 2 ^ j"
      by (simp only: roundHalfEven_of_int)
    then show ?thesis
      unfolding q by (simp add: p)
  qed
qed

lemma whole_is_nat:
  assumes "0 \<le> v" and "v = of_int \<lfloor>v\<rfloor>"
  shows "(v :: rat) = of_nat (nat \<lfloor>v\<rfloor>)"
proof -
  have "0 \<le> \<lfloor>v\<rfloor>"
    using assms(1) by simp
  then have "(of_nat (nat \<lfloor>v\<rfloor>) :: rat) = of_int \<lfloor>v\<rfloor>"
    by simp
  then show ?thesis
    using assms(2) by simp
qed

lemma dadd_of_nat:
  assumes "i + j \<le> 2 ^ 53"
  shows "dadd (of_nat i) (of_nat j) = of_nat (i + j)"
proof -
  have "i \<le> 2 ^ 53" "j \<le> 2 ^ 53"
    using assms by simp_all
  then show ?thesis
    using toDouble_of_nat [of i] toDouble_of_nat [of j] toDouble_of_nat [OF assms]
    by (simp add: dadd_def)
qed

lemma foldl_dadd_whole:
  assumes "list_all (\<lambda>v. 0 \<le> v \<and> v = of_int \<lfloor>v\<rfloor>) vs"
    and "of_nat a + sum_list vs \<le> 2 ^ 53"
  shows "foldl dadd (of_nat a) vs = of_nat a + sum_list vs"
  using assms
proof (induction vs arbitrary: a)
  case Nil
  then show ?case by simp
next
  case (Cons v vs)
  define i where "i = nat \<lfloor>v\<rfloor>"
  have v: "v = of_nat i"
    using Cons.prems(1) whole_is_nat [of v] by (simp add: i_def)
  have rest: "list_all (\<lambda>v. 0 \<le> v \<and> v = of_int \<lfloor>v\<rfloor>) vs"
    using Cons.prems(1) by simp
  have nonneg: "0 \<le> sum_list vs"
    using rest by (induction vs) auto
  have "(of_nat (a + i) :: rat) \<le> 2 ^ 53"
    using Cons.prems(2) nonneg by (simp add: v)
  then have bound: "a + i \<le> 2 ^ 53"
    by (metis of_nat_le_iff of_nat_numeral of_nat_power)
  have step: "dadd (of_nat a) v = of_nat (a + i)"
    unfolding v using bound by (rule dadd_of_nat)
  have "of_nat (a + i) + sum_list vs \<le> (2 ^ 53 :: rat)"
    using Cons.prems(2) by (simp add: v)
  note ih = Cons.IH [OF rest this]
  have "foldl dadd (of_nat a) (v # vs) = foldl dadd (of_nat (a + i)) vs"
    by (simp only: foldl_Cons step)
  also have "\<dots> = of_nat (a + i) + sum_list vs"
    by (rule ih)
  also have "\<dots> = of_nat a + sum_list (v # vs)"
    by (simp add: v)
  finally show ?case .
qed

lemma doubleSum_whole:
  assumes "wholeNumbers vs"
  shows "doubleSum vs = sum_list vs"
  using assms foldl_dadd_whole [of vs 0] by (simp add: wholeNumbers_def doubleSum_def)

lemma pow2_Suc: "pow2 (k + 1) = 2 * pow2 k"
proof (cases "0 \<le> k")
  case True
  then show ?thesis
    by (simp add: pow2_def nat_add_distrib)
next
  case False
  define j where "j = nat (- k - 1)"
  have j: "k = - 1 - int j"
    using False by (simp add: j_def)
  show ?thesis
    unfolding j by (simp add: pow2_def nat_add_distrib)
qed

lemma pow2_nat: "0 \<le> k \<Longrightarrow> pow2 k = 2 ^ nat k"
  by (simp add: pow2_def)

lemma ilog2_bounds:
  assumes "0 < x"
  shows "pow2 (ilog2 x) \<le> x \<and> x < pow2 (ilog2 x + 1)"
proof (cases "1 \<le> x")
  case True
  define n where "n = \<lfloor>x\<rfloor>"
  define b where "b = bitlen n"
  have n: "1 \<le> n" "of_int n \<le> x" "x < of_int n + 1"
    using True unfolding n_def by (simp add: le_floor_iff, linarith, linarith)
  have bb: "2 ^ nat (b - 1) \<le> n" "n < 2 ^ nat b"
    using bitlen_bounds [of n] n(1) by (simp_all add: b_def)
  have b1: "1 \<le> b"
    using n(1) bitlen_eq_zero_iff [of n] bitlen_nonneg [of n] unfolding b_def by linarith
  have e: "ilog2 x = b - 1"
    using True by (simp add: ilog2_def n_def b_def)
  have "pow2 (b - 1) = of_int (2 ^ nat (b - 1))"
    using b1 by (simp add: pow2_nat)
  also have "\<dots> \<le> of_int n"
    using bb(1) by (simp only: of_int_le_iff)
  finally have lo: "pow2 (b - 1) \<le> x"
    using n(2) by simp
  have "n + 1 \<le> 2 ^ nat b"
    using bb(2) by simp
  then have "(of_int (n + 1) :: rat) \<le> of_int (2 ^ nat b)"
    by (simp only: of_int_le_iff)
  then have "x < of_int (2 ^ nat b)"
    using n(3) by simp
  moreover have "pow2 b = of_int (2 ^ nat b)"
    using b1 by (simp add: pow2_nat)
  ultimately have hi: "x < pow2 (b - 1 + 1)"
    by simp
  show ?thesis
    unfolding e using lo hi by simp
next
  case False
  define y where "y = 1 / x"
  define m where "m = \<lceil>y\<rceil> - 1"
  define b where "b = bitlen m"
  have y1: "1 < y"
    using False assms by (simp add: y_def)
  have m: "1 \<le> m" "of_int m < y" "y \<le> of_int m + 1"
  proof -
    have "1 < \<lceil>y\<rceil>"
      using y1 by (simp add: less_ceiling_iff)
    then show "1 \<le> m"
      by (simp add: m_def)
    show "of_int m < y"
      unfolding m_def by linarith
    show "y \<le> of_int m + 1"
      unfolding m_def by (simp add: le_of_int_ceiling)
  qed
  have bb: "2 ^ nat (b - 1) \<le> m" "m < 2 ^ nat b"
    using bitlen_bounds [of m] m(1) by (simp_all add: b_def)
  have b1: "1 \<le> b"
    using m(1) bitlen_eq_zero_iff [of m] bitlen_nonneg [of m] unfolding b_def by linarith
  have e: "ilog2 x = - b"
    using False by (simp add: ilog2_def m_def b_def y_def)
  have "(of_int (m + 1) :: rat) \<le> of_int (2 ^ nat b)"
    using bb(2) by (simp only: of_int_le_iff)
  then have yhi: "y \<le> 2 ^ nat b"
    using m(3) by simp
  have "(2 ^ nat (b - 1) :: rat) \<le> of_int m"
    using bb(1) by simp
  then have ylo: "2 ^ nat (b - 1) < y"
    using m(2) by linarith
  have p: "pow2 (- b) = 1 / 2 ^ nat b"
    using b1 by (simp add: pow2_def)
  have p': "pow2 (- b + 1) = 1 / 2 ^ nat (b - 1)"
  proof (cases "b = 1")
    case True
    then show ?thesis by (simp add: pow2_def)
  next
    case False
    then have "- b + 1 < 0"
      using b1 by simp
    moreover have "nat (- (- b + 1)) = nat (b - 1)"
      by simp
    ultimately show ?thesis
      by (simp add: pow2_def)
  qed
  have "1 / 2 ^ nat b \<le> x"
    using yhi assms by (simp add: y_def field_simps)
  moreover have "x < 1 / 2 ^ nat (b - 1)"
    using ylo assms by (simp add: y_def field_simps)
  ultimately show ?thesis
    unfolding e p p' by simp
qed

lemma roundHalfEven_bounds: "\<bar>of_int (roundHalfEven t) - t\<bar> \<le> 1 / 2"
proof -
  define f where "f = \<lfloor>t\<rfloor>"
  have f: "of_int f \<le> t" "t < of_int f + 1"
    unfolding f_def by linarith+
  consider "t - of_int f < 1 / 2" | "1 / 2 < t - of_int f" | "t - of_int f = 1 / 2"
    by linarith
  then show ?thesis
  proof cases
    case 1
    then have "roundHalfEven t = f"
      by (simp add: roundHalfEven_def f_def)
    then show ?thesis using 1 f by simp
  next
    case 2
    then have "roundHalfEven t = f + 1"
      by (simp add: roundHalfEven_def f_def)
    then show ?thesis using 2 f by simp
  next
    case 3
    then have "roundHalfEven t = f \<or> roundHalfEven t = f + 1"
      by (simp add: roundHalfEven_def f_def Let_def)
    then show ?thesis using 3 f by auto
  qed
qed

text \<open>
  Rounding moves a number by at most half a unit in the last place, which in the
  normal range is at most the \<open>2 ^ 53\<close>rd part of the number.
\<close>

lemma toDouble_error:
  assumes "x \<noteq> 0"
  shows "\<bar>toDouble x - x\<bar> \<le> pow2 (max (ilog2 \<bar>x\<bar>) (- 1022) - 52) / 2"
proof -
  define q where "q = pow2 (max (ilog2 \<bar>x\<bar>) (- 1022) - 52)"
  have q: "0 < q"
    by (simp add: q_def pow2_pos)
  have "toDouble x - x = (of_int (roundHalfEven (x / q)) - x / q) * q"
    using assms q by (simp add: toDouble_def q_def [symmetric] Let_def field_simps)
  then have "\<bar>toDouble x - x\<bar> = \<bar>of_int (roundHalfEven (x / q)) - x / q\<bar> * q"
    using q by (simp add: abs_mult)
  also have "\<dots> \<le> 1 / 2 * q"
    using roundHalfEven_bounds [of "x / q"] q by (intro mult_right_mono) simp_all
  finally show ?thesis
    by (simp add: q_def)
qed

lemma toDouble_relative_error:
  assumes "pow2 (- 1022) \<le> \<bar>x\<bar>"
  shows "\<bar>toDouble x - x\<bar> \<le> \<bar>x\<bar> / 2 ^ 53"
proof -
  have x: "0 < \<bar>x\<bar>"
    using assms pow2_pos [of "- 1022"] by linarith
  then have nz: "x \<noteq> 0"
    by simp
  define e where "e = ilog2 \<bar>x\<bar>"
  have b: "pow2 e \<le> \<bar>x\<bar>" "\<bar>x\<bar> < pow2 (e + 1)"
    using ilog2_bounds [OF x] by (simp_all add: e_def)
  have "- 1022 \<le> e"
  proof (rule ccontr)
    assume "\<not> - 1022 \<le> e"
    then have "e + 1 \<le> - 1022"
      by simp
    define d where "d = nat (- 1022 - (e + 1))"
    have d: "- 1022 = e + 1 + int d"
      using \<open>e + 1 \<le> - 1022\<close> by (simp add: d_def)
    have "pow2 (e + 1) \<le> pow2 (e + 1 + int d)"
    proof (induction d)
      case 0
      then show ?case by simp
    next
      case (Suc d)
      have "pow2 (e + 1 + int (Suc d)) = 2 * pow2 (e + 1 + int d)"
        using pow2_Suc [of "e + 1 + int d"] by (simp add: add.assoc)
      then show ?case
        using Suc pow2_pos [of "e + 1 + int d"] by linarith
    qed
    then show False
      using b(2) assms d by simp
  qed
  then have m: "max e (- 1022) = e"
    by simp
  have "pow2 e = 2 ^ 52 * (2 * pow2 (e - 52 - 1))"
  proof -
    have "pow2 (e - 52 + int k) = 2 ^ k * pow2 (e - 52)" for k
    proof (induction k)
      case 0
      then show ?case by simp
    next
      case (Suc k)
      have "pow2 (e - 52 + int (Suc k)) = 2 * pow2 (e - 52 + int k)"
        using pow2_Suc [of "e - 52 + int k"] by (simp add: add.assoc)
      then show ?case
        using Suc by simp
    qed
    from this [of 52] have "pow2 e = 2 ^ 52 * pow2 (e - 52)"
      by simp
    moreover have "pow2 (e - 52) = 2 * pow2 (e - 52 - 1)"
      using pow2_Suc [of "e - 52 - 1"] by simp
    ultimately show ?thesis
      by simp
  qed
  then have half: "pow2 (e - 52) / 2 = pow2 e / 2 ^ 53"
    using pow2_Suc [of "e - 52 - 1"] by simp
  have "\<bar>toDouble x - x\<bar> \<le> pow2 (e - 52) / 2"
    using toDouble_error [OF nz] by (simp add: e_def [symmetric] m)
  also have "\<dots> = pow2 e / 2 ^ 53"
    by (rule half)
  also have "\<dots> \<le> \<bar>x\<bar> / 2 ^ 53"
    using b(1) by (simp add: divide_right_mono)
  finally show ?thesis .
qed

lemma pow2_powi: "pow2 k = 2 powi k"
  by (simp add: pow2_def power_int_def power_inverse inverse_eq_divide power_one_over)

lemma pow2_add: "pow2 (a + b) = pow2 a * pow2 b"
  by (simp add: pow2_powi power_int_add)

lemma pow2_strict_mono: "a < b \<Longrightarrow> pow2 a < pow2 b"
  by (simp add: pow2_powi power_int_strict_increasing)

lemma pow2_mono: "a \<le> b \<Longrightarrow> pow2 a \<le> pow2 b"
  by (simp add: pow2_powi power_int_increasing)

lemma pow2_less_cancel: "pow2 a < pow2 b \<Longrightarrow> a < b"
  using pow2_mono [of b a] by (cases "a < b") simp_all

text \<open>A number \<open>m * 2 ^ k\<close> with \<open>\<bar>m\<bar> < 2 ^ 53\<close> and \<open>k \<ge> - 1074\<close> is a double: rounding leaves it.\<close>

lemma toDouble_exact:
  assumes "\<bar>m\<bar> < 2 ^ 53" and "- 1074 \<le> k"
  shows "toDouble (of_int m * pow2 k) = of_int m * pow2 k"
proof (cases "m = 0")
  case True
  then show ?thesis by (simp add: toDouble_def)
next
  case False
  define x where "x = of_int m * pow2 k"
  have nz: "x \<noteq> 0"
    using False pow2_pos [of k] by (simp add: x_def)
  then have pos: "0 < \<bar>x\<bar>"
    by simp
  define e where "e = ilog2 \<bar>x\<bar>"
  define d where "d = max e (- 1022) - 52"
  have "\<bar>x\<bar> = \<bar>of_int m\<bar> * pow2 k"
    using pow2_pos [of k] by (simp add: x_def abs_mult)
  also have "\<dots> < 2 ^ 53 * pow2 k"
  proof -
    have "\<bar>of_int m :: rat\<bar> < 2 ^ 53"
      using assms(1) by (metis of_int_abs of_int_less_numeral_power_cancel_iff)
    then show ?thesis
      using pow2_pos [of k] by simp
  qed
  also have "\<dots> = pow2 (53 + k)"
  proof -
    have "pow2 53 = 2 ^ 53"
      by (simp add: pow2_def)
    then show ?thesis
      by (simp add: pow2_add)
  qed
  finally have "pow2 e < pow2 (53 + k)"
    using ilog2_bounds [OF pos] by (simp add: e_def)
  then have "e < 53 + k"
    by (rule pow2_less_cancel)
  then have dk: "d \<le> k"
    using assms(2) by (simp add: d_def)
  define j where "j = nat (k - d)"
  have "pow2 k = pow2 (int j) * pow2 d"
    using dk pow2_add [of "int j" d] by (simp add: j_def)
  then have pk: "pow2 k = 2 ^ j * pow2 d"
    by (simp add: pow2_def)
  have "x / pow2 d = of_int (m * 2 ^ j)"
    using pow2_pos [of d] by (simp add: x_def pk)
  then have "roundHalfEven (x / pow2 d) = m * 2 ^ j"
    by (simp only: roundHalfEven_of_int)
  then have "toDouble x = of_int (m * 2 ^ j) * pow2 d"
    using nz by (simp add: toDouble_def Let_def d_def e_def)
  then show ?thesis
    by (simp add: x_def pk)
qed

lemma toDouble_0 [simp]: "toDouble 0 = 0"
  by (simp add: toDouble_def)

lemma toDouble_int:
  assumes "\<bar>m\<bar> < 2 ^ 53"
  shows "toDouble (of_int m) = of_int m"
  using toDouble_exact [OF assms, of 0] by (simp add: pow2_def)

lemma toDouble_half:
  assumes "\<bar>m\<bar> < 2 ^ 53"
  shows "toDouble (of_int m / 2) = of_int m / 2"
  using toDouble_exact [OF assms, of "- 1"] by (simp add: pow2_def)

lemma toDouble_one [simp]: "toDouble 1 = 1"
  using toDouble_int [of 1] by simp

lemma toDouble_one_half [simp]: "toDouble (1 / 2) = 1 / 2"
  using toDouble_half [of 1] by simp

lemma toDouble_numeral:
  assumes "numeral n < (2 ^ 53 :: int)"
  shows "toDouble (numeral n) = numeral n"
  using toDouble_int [of "numeral n"] assms by simp

lemma toDouble_numeral_half:
  assumes "numeral n < (2 ^ 53 :: int)"
  shows "toDouble (numeral n / 2) = numeral n / 2"
  using toDouble_half [of "numeral n"] assms by simp

lemma Math_round_of_int: "Math_round (of_int k) = of_int k"
proof -
  have "\<lfloor>rat_of_int k + 1 / 2\<rfloor> = k"
    by (rule floor_unique) simp_all
  then show ?thesis
    by (simp add: Math_round_def)
qed

lemma Math_round_numeral: "Math_round (numeral n) = numeral n"
  using Math_round_of_int [of "numeral n"] by simp

lemmas double_simps = dadd_def dmul_def ddiv_def toDouble_numeral toDouble_numeral_half
  Math_round_numeral

text \<open>Rounding yields a double, so rounding twice is rounding once.\<close>

lemma toDouble_idem [simp]: "toDouble (toDouble x) = toDouble x"
proof (cases "x = 0")
  case True
  then show ?thesis by simp
next
  case False
  then have pos: "0 < \<bar>x\<bar>"
    by simp
  define e where "e = ilog2 \<bar>x\<bar>"
  define d where "d = max e (- 1022) - 52"
  define m where "m = roundHalfEven (x / pow2 d)"
  have td: "toDouble x = of_int m * pow2 d"
    using False by (simp add: toDouble_def Let_def m_def d_def e_def)
  have dlow: "- 1074 \<le> d"
    by (simp add: d_def)
  have q: "0 < pow2 d"
    by (rule pow2_pos)
  have "\<bar>x\<bar> < pow2 (e + 1)"
    using ilog2_bounds [OF pos] by (simp add: e_def)
  also have "\<dots> \<le> pow2 (53 + d)"
    by (rule pow2_mono) (simp add: d_def)
  also have "\<dots> = 2 ^ 53 * pow2 d"
  proof -
    have "pow2 53 = 2 ^ 53"
      by (simp add: pow2_def)
    then show ?thesis
      by (simp add: pow2_add)
  qed
  finally have "\<bar>x\<bar> / pow2 d < 2 ^ 53"
    using q by (simp add: pos_divide_less_eq)
  then have t: "\<bar>x / pow2 d\<bar> < 2 ^ 53"
    using q by simp
  have "\<bar>rat_of_int m\<bar> \<le> \<bar>of_int m - x / pow2 d\<bar> + \<bar>x / pow2 d\<bar>"
    by linarith
  also have "\<dots> < 1 / 2 + 2 ^ 53"
    using roundHalfEven_bounds [of "x / pow2 d"] t by (simp add: m_def)
  finally have "rat_of_int \<bar>m\<bar> < of_int (2 ^ 53 + 1)"
    by simp
  then have "\<bar>m\<bar> < 2 ^ 53 + 1"
    by (simp only: of_int_less_iff)
  then consider "\<bar>m\<bar> < 2 ^ 53" | "\<bar>m\<bar> = 2 ^ 53"
    by linarith
  then show ?thesis
  proof cases
    case 1
    then show ?thesis
      unfolding td using dlow by (rule toDouble_exact)
  next
    case 2
    then consider "m = 2 ^ 53" | "m = - (2 ^ 53)"
      by linarith
    then obtain h where m2: "m = 2 * h" and h: "\<bar>h\<bar> < 2 ^ 53"
    proof cases
      case 1
      then have "m = 2 * 2 ^ 52" "\<bar>2 ^ 52 :: int\<bar> < 2 ^ 53"
        by simp_all
      then show ?thesis
        by (rule that)
    next
      case 2
      then have "m = 2 * (- (2 ^ 52))" "\<bar>- (2 ^ 52) :: int\<bar> < 2 ^ 53"
        by simp_all
      then show ?thesis
        by (rule that)
    qed
    have "pow2 (d + 1) = 2 * pow2 d"
      by (rule pow2_Suc)
    then have eq: "of_int m * pow2 d = of_int h * pow2 (d + 1)"
      by (simp add: m2)
    have "toDouble (of_int h * pow2 (d + 1)) = of_int h * pow2 (d + 1)"
      using h by (rule toDouble_exact) (use dlow in simp)
    then show ?thesis
      by (simp add: td eq)
  qed
qed

lemma dadd_zero: "dadd 0 x = toDouble x"
  by (simp add: dadd_def)

lemma doubleSum_single: "doubleSum [x] = toDouble x"
  by (simp add: doubleSum_def dadd_def)

lemmas resolve_defs = originalGramWeight_def servingInfoGramWeight_def matchAt_def
  isDigit_def parseFloatDigits_def digitValue_def orNumber_def

subsection \<open>Sums\<close>

lemma foldl_addNutrients:
  "foldl (\<lambda>totals x. addNutrients totals (f x)) acc xs =
     \<lparr>calories = foldl dadd (calories acc) (map (\<lambda>x. calories (f x)) xs),
      protein = foldl dadd (protein acc) (map (\<lambda>x. protein (f x)) xs),
      carbs = foldl dadd (carbs acc) (map (\<lambda>x. carbs (f x)) xs),
      fat = foldl dadd (fat acc) (map (\<lambda>x. fat (f x)) xs)\<rparr>"
  by (induction xs arbitrary: acc) (simp_all add: addNutrients_def)

lemma sumIngredients_elementwise: "sumIngredients ings = elementwiseSum (map nutrients ings)"
  by (simp add: sumIngredients_def foldl_addNutrients zeroNutrients_def elementwiseSum_def
      doubleSum_def comp_def)

lemma sumMeals_elementwise: "sumMeals meals = elementwiseSum (map total_nutrients meals)"
  by (simp add: sumMeals_def foldl_addNutrients zeroNutrients_def elementwiseSum_def
      doubleSum_def comp_def)

lemma sumIngredients_snoc:
  "sumIngredients (xs @ [x]) = addNutrients (sumIngredients xs) (nutrients x)"
  by (simp add: sumIngredients_def)

lemma sum_list_mset_cong:
  fixes f :: "'a \<Rightarrow> rat"
  assumes "mset xs = mset ys"
  shows "(\<Sum>x\<leftarrow>xs. f x) = (\<Sum>x\<leftarrow>ys. f x)"
proof -
  have "mset (map f xs) = mset (map f ys)"
    using assms by (metis mset_map)
  then have "sum_mset (mset (map f xs)) = sum_mset (mset (map f ys))"
    by simp
  then show ?thesis
    by (simp only: sum_mset_sum_list)
qed

lemma wholeNumbers_mset:
  assumes "wholeNumbers (map f xs)" and "mset ys = mset xs"
  shows "wholeNumbers (map f ys)"
proof -
  have "set ys = set xs"
    using assms(2) by (metis set_mset_mset)
  moreover have "sum_list (map f ys) = sum_list (map f xs)"
    using assms(2) by (rule sum_list_mset_cong)
  ultimately show ?thesis
    using assms(1) by (simp add: wholeNumbers_def list_all_iff)
qed

lemma sumIngredients_whole:
  assumes "wholeNutrients ings"
  shows "sumIngredients ings =
     \<lparr>calories = (\<Sum>i\<leftarrow>ings. calories (nutrients i)),
      protein = (\<Sum>i\<leftarrow>ings. protein (nutrients i)),
      carbs = (\<Sum>i\<leftarrow>ings. carbs (nutrients i)),
      fat = (\<Sum>i\<leftarrow>ings. fat (nutrients i))\<rparr>"
  using assms doubleSum_whole
  by (simp add: sumIngredients_elementwise elementwiseSum_def wholeNutrients_def comp_def)

subsection \<open>Filtering by position\<close>

lemma filter_zip_upt:
  "map fst (filter (\<lambda>(_, j). j \<noteq> i) (zip xs [k..<k + length xs])) =
     (if i < k then xs else take (i - k) xs @ drop (Suc (i - k)) xs)"
proof (induction xs arbitrary: k)
  case Nil
  then show ?case by simp
next
  case (Cons x xs)
  have upt: "[k..<Suc (k + length xs)] = k # [Suc k..<Suc (k + length xs)]"
    by (rule upt_conv_Cons) simp
  consider "i < k" | "i = k" | d where "i = Suc (k + d)"
    by (metis less_imp_Suc_add linorder_neqE_nat)
  then show ?case
  proof cases
    case 1
    then show ?thesis
      using Cons.IH [of "Suc k"] by (simp add: upt del: upt_Suc)
  next
    case 2
    then show ?thesis
      using Cons.IH [of "Suc k"] by (simp add: upt del: upt_Suc)
  next
    case 3
    then show ?thesis
      using Cons.IH [of "Suc k"] by (simp add: upt del: upt_Suc)
  qed
qed

lemma filterIndex_eq: "filterIndex i xs = take i xs @ drop (Suc i) xs"
  using filter_zip_upt [of i xs 0] by (simp add: filterIndex_def)

subsection \<open>Rounding\<close>

lemma Math_round_bounds: "x - 1 / 2 < Math_round x \<and> Math_round x \<le> x + 1 / 2"
  unfolding Math_round_def by linarith

lemma Math_round_int: "Math_round x \<in> \<int>"
  by (simp add: Math_round_def)

lemma Math_round_floor: "Math_round x = of_int \<lfloor>x + 1 / 2\<rfloor>"
  by (simp add: Math_round_def)

lemma newNutrients_calories:
  "calories (newNutrients orig x) = Math_round (dmul (calories orig) x)"
  "calories (newNutrients orig x) \<in> \<int>"
  "dmul (calories orig) x - 1 / 2 < calories (newNutrients orig x)"
  "calories (newNutrients orig x) \<le> dmul (calories orig) x + 1 / 2"
  using Math_round_bounds [of "dmul (calories orig) x"]
  by (simp_all add: newNutrients_def Math_round_int)

text \<open>
  A value \<open>ddiv (Math_round p) 10\<close> is the double of a whole number of tenths, the
  whole number being the nearest one to \<open>p\<close>.
\<close>

lemma tenths:
  "\<exists>k::int. ddiv (Math_round p) 10 = ddiv (of_int k) 10
     \<and> p - 1 / 2 < of_int k \<and> of_int k \<le> p + 1 / 2"
proof -
  have "Math_round p = of_int \<lfloor>p + 1 / 2\<rfloor>"
    by (rule Math_round_floor)
  then show ?thesis
    using Math_round_bounds [of p] by metis
qed

lemma newNutrients_tenths:
  "\<exists>k::int. protein (newNutrients orig x) = ddiv (of_int k) 10
     \<and> dmul (dmul (protein orig) x) 10 - 1 / 2 < of_int k
     \<and> of_int k \<le> dmul (dmul (protein orig) x) 10 + 1 / 2"
  "\<exists>k::int. carbs (newNutrients orig x) = ddiv (of_int k) 10
     \<and> dmul (dmul (carbs orig) x) 10 - 1 / 2 < of_int k
     \<and> of_int k \<le> dmul (dmul (carbs orig) x) 10 + 1 / 2"
  "\<exists>k::int. fat (newNutrients orig x) = ddiv (of_int k) 10
     \<and> dmul (dmul (fat orig) x) 10 - 1 / 2 < of_int k
     \<and> of_int k \<le> dmul (dmul (fat orig) x) 10 + 1 / 2"
  using tenths by (simp_all add: newNutrients_def)

subsection \<open>Storing a changed ingredient\<close>

lemma storeIngredient_valid:
  assumes "mi < length meals"
  shows "storeIngredient mi ii x meals s =
     Inr (s\<lparr>loggedMeals := meals[mi := (meals ! mi)\<lparr>
                ingredients := (ingredients (meals ! mi))[ii := x],
                total_nutrients := sumIngredients ((ingredients (meals ! mi))[ii := x])\<rparr>],
            dailyTotals := sumMeals (meals[mi := (meals ! mi)\<lparr>
                ingredients := (ingredients (meals ! mi))[ii := x],
                total_nutrients := sumIngredients ((ingredients (meals ! mi))[ii := x])\<rparr>])\<rparr>)"
  using assms
  by (simp add: storeIngredient_def recalculateMealTotals_def setIngredient_def
      recalculateDailyTotals_def Let_def)

lemma storeIngredient_result:
  assumes "mi < length meals" "ii < length (ingredients (meals ! mi))"
  shows "\<exists>s'. storeIngredient mi ii x meals s = Inr s'
    \<and> length (loggedMeals s') = length meals
    \<and> ingredients (loggedMeals s' ! mi) = (ingredients (meals ! mi))[ii := x]
    \<and> ingredients (loggedMeals s' ! mi) ! ii = x
    \<and> total_nutrients (loggedMeals s' ! mi) = sumIngredients (ingredients (loggedMeals s' ! mi))
    \<and> dailyTotals s' = sumMeals (loggedMeals s')
    \<and> (\<forall>k. k \<noteq> mi \<longrightarrow> loggedMeals s' ! k = meals ! k)
    \<and> foodInput s' = foodInput s \<and> error s' = error s"
  using assms by (simp add: storeIngredient_valid)

lemma rescale_success:
  assumes "mi < length meals" "ii < length (ingredients (meals ! mi))"
    and "0 < originalGramWeight (ingredients (meals ! mi) ! ii)" "0 < W"
  shows "recalculateIngredientNutrition mi ii W meals s =
     storeIngredient mi ii
       ((ingredients (meals ! mi) ! ii)\<lparr>
          originalNutrients := Some (snapshot (ingredients (meals ! mi) ! ii)),
          nutrients := newNutrients (snapshot (ingredients (meals ! mi) ! ii))
                         (ddiv W (originalGramWeight (ingredients (meals ! mi) ! ii)))\<rparr>)
       meals s"
  using assms by (simp add: recalculateIngredientNutrition_def Let_def)

lemma rescale_noop:
  assumes "mi < length meals" "ii < length (ingredients (meals ! mi))"
    and "W \<le> 0 \<or> originalGramWeight (ingredients (meals ! mi) ! ii) \<le> 0"
  shows "recalculateIngredientNutrition mi ii W meals s = Inr s"
  using assms by (auto simp: recalculateIngredientNutrition_def Let_def)

lemma servingInfoGramWeight_update:
  "servingInfoGramWeight (ing\<lparr>originalNutrients := a, nutrients := b\<rparr>) =
     servingInfoGramWeight ing"
  by (simp add: servingInfoGramWeight_def)

lemma originalGramWeight_update:
  "originalGramWeight (ing\<lparr>originalNutrients := a, nutrients := b\<rparr>) = originalGramWeight ing"
  by (simp add: originalGramWeight_def servingInfoGramWeight_update Let_def
      split: option.splits list.splits)

lemma reset_success:
  assumes "mi < length (loggedMeals s)" and "ii < length (ingredients (loggedMeals s ! mi))"
    and "originalNutrients (ingredients (loggedMeals s ! mi) ! ii) = Some orig"
  shows "resetToOriginalNutrition mi ii s =
     storeIngredient mi ii ((ingredients (loggedMeals s ! mi) ! ii)\<lparr>nutrients := orig\<rparr>)
       (loggedMeals s) s"
  using assms by (simp add: resetToOriginalNutrition_def Let_def)

subsection \<open>What a handler can return\<close>

lemma storeIngredient_cases:
  assumes "storeIngredient mi ii x meals s = Inr s'"
  shows "mi < length meals
    \<and> loggedMeals s' = meals[mi := (meals ! mi)\<lparr>
          ingredients := (ingredients (meals ! mi))[ii := x],
          total_nutrients := sumIngredients ((ingredients (meals ! mi))[ii := x])\<rparr>]
    \<and> dailyTotals s' = sumMeals (loggedMeals s')
    \<and> foodInput s' = foodInput s \<and> error s' = error s"
proof (cases "mi < length meals")
  case True
  then show ?thesis
    using assms by (auto simp: storeIngredient_valid)
next
  case False
  then show ?thesis
    using assms
    by (simp add: storeIngredient_def recalculateMealTotals_def setIngredient_def)
qed

lemma rescale_cases:
  assumes "recalculateIngredientNutrition mi ii W meals s = Inr s'"
  shows "s' = s \<or>
    (mi < length meals \<and> ii < length (ingredients (meals ! mi))
     \<and> 0 < originalGramWeight (ingredients (meals ! mi) ! ii) \<and> 0 < W
     \<and> storeIngredient mi ii
          ((ingredients (meals ! mi) ! ii)\<lparr>
             originalNutrients := Some (snapshot (ingredients (meals ! mi) ! ii)),
             nutrients := newNutrients (snapshot (ingredients (meals ! mi) ! ii))
                            (ddiv W (originalGramWeight (ingredients (meals ! mi) ! ii)))\<rparr>)
          meals s = Inr s')"
  using assms
  by (auto simp: recalculateIngredientNutrition_def Let_def split: if_splits)

lemma reset_cases:
  assumes "resetToOriginalNutrition mi ii s = Inr s'"
  shows "s' = s \<or>
    (mi < length (loggedMeals s) \<and> ii < length (ingredients (loggedMeals s ! mi))
     \<and> (\<exists>orig. originalNutrients (ingredients (loggedMeals s ! mi) ! ii) = Some orig
          \<and> storeIngredient mi ii
               ((ingredients (loggedMeals s ! mi) ! ii)\<lparr>nutrients := orig\<rparr>)
               (loggedMeals s) s = Inr s'))"
  using assms
  by (auto simp: resetToOriginalNutrition_def Let_def split: if_splits option.splits)

lemma rescale_stored:
  assumes "recalculateIngredientNutrition mi ii W meals s = Inr s'"
  shows "s' = s \<or>
    (\<exists>x. storeIngredient mi ii x meals s = Inr s'
       \<and> ii < length (ingredients (meals ! mi))
       \<and> x = (ingredients (meals ! mi) ! ii)\<lparr>originalNutrients := originalNutrients x,
                                               nutrients := nutrients x\<rparr>
       \<and> originalNutrients x = Some (snapshot (ingredients (meals ! mi) ! ii)))"
proof (cases "s' = s")
  case True
  then show ?thesis by simp
next
  case False
  define old where "old = ingredients (meals ! mi) ! ii"
  define x where "x = old\<lparr>originalNutrients := Some (snapshot old),
      nutrients := newNutrients (snapshot old) (ddiv W (originalGramWeight old))\<rparr>"
  have "storeIngredient mi ii x meals s = Inr s'" "ii < length (ingredients (meals ! mi))"
    using rescale_cases [OF assms] False by (simp_all add: x_def old_def)
  moreover have "x = old\<lparr>originalNutrients := originalNutrients x, nutrients := nutrients x\<rparr>"
      "originalNutrients x = Some (snapshot old)"
    by (simp_all add: x_def)
  ultimately show ?thesis
    unfolding old_def by blast
qed

lemma reset_stored:
  assumes "resetToOriginalNutrition mi ii s = Inr s'"
  shows "s' = s \<or>
    (\<exists>x. storeIngredient mi ii x (loggedMeals s) s = Inr s'
       \<and> ii < length (ingredients (loggedMeals s ! mi))
       \<and> x = (ingredients (loggedMeals s ! mi) ! ii)\<lparr>originalNutrients := originalNutrients x,
                                                     nutrients := nutrients x\<rparr>
       \<and> originalNutrients x = Some (snapshot (ingredients (loggedMeals s ! mi) ! ii)))"
proof (cases "s' = s")
  case True
  then show ?thesis by simp
next
  case False
  define old where "old = ingredients (loggedMeals s ! mi) ! ii"
  from reset_cases [OF assms] False obtain orig where
    o: "ii < length (ingredients (loggedMeals s ! mi))" "originalNutrients old = Some orig"
      "storeIngredient mi ii (old\<lparr>nutrients := orig\<rparr>) (loggedMeals s) s = Inr s'"
    unfolding old_def by blast
  define x where "x = old\<lparr>nutrients := orig\<rparr>"
  have "storeIngredient mi ii x (loggedMeals s) s = Inr s'"
    using o(3) by (simp add: x_def)
  moreover have "x = old\<lparr>originalNutrients := originalNutrients x, nutrients := nutrients x\<rparr>"
      "originalNutrients x = Some (snapshot old)"
    using o(2) by (simp_all add: x_def snapshot_def)
  ultimately show ?thesis
    using o(1) unfolding old_def by blast
qed

lemma custom_stored:
  assumes "handleCustomGramInput mi ii g s = Inr s'"
  shows "s' = s \<or>
    (\<exists>x. storeIngredient mi ii x (loggedMeals s) s = Inr s'
       \<and> ii < length (ingredients (loggedMeals s ! mi))
       \<and> x = (ingredients (loggedMeals s ! mi) ! ii)\<lparr>originalNutrients := originalNutrients x,
                                                     nutrients := nutrients x\<rparr>
       \<and> originalNutrients x = Some (snapshot (ingredients (loggedMeals s ! mi) ! ii)))"
proof (cases "g > 0")
  case True
  then have "recalculateIngredientNutrition mi ii g (loggedMeals s) s = Inr s'"
    using assms by (simp add: handleCustomGramInput_def)
  then show ?thesis by (rule rescale_stored)
next
  case False
  then have "resetToOriginalNutrition mi ii s = Inr s'"
    using assms by (simp add: handleCustomGramInput_def)
  then show ?thesis by (rule reset_stored)
qed

lemma orUnchanged_cases:
  obtains "orUnchanged s r = s" | s' where "r = Inr s'" "orUnchanged s r = s'"
  by (cases r) (simp_all add: orUnchanged_def)

lemma step_cases:
  obtains (input) input where "ev = SetFoodInput input" "step s ev = s\<lparr>foodInput := input\<rparr>"
  | (log) outcome where "ev = LogFood outcome" "step s ev = logFood s outcome"
  | (remove) index where "ev = RemoveMeal index" "step s ev = removeMeal index s"
  | (same) "step s ev = s"
  | (stored) mi ii x where
      "storeIngredient mi ii x (loggedMeals s) s = Inr (step s ev)"
      "ii < length (ingredients (loggedMeals s ! mi))"
      "x = (ingredients (loggedMeals s ! mi) ! ii)\<lparr>originalNutrients := originalNutrients x,
                                                    nutrients := nutrients x\<rparr>"
      "originalNutrients x = Some (snapshot (ingredients (loggedMeals s ! mi) ! ii))"
proof (cases ev)
  case (SetFoodInput i)
  then show ?thesis using input by simp
next
  case (LogFood outcome)
  then show ?thesis using log by simp
next
  case (RemoveMeal index)
  then show ?thesis using remove by simp
next
  case ev: (SelectMeasurement mi ii k gw)
  show ?thesis
  proof (cases rule: orUnchanged_cases [of s "selectMeasurement mi ii k gw s"])
    case 1
    then show ?thesis using same ev by simp
  next
    case (2 s')
    then have "recalculateIngredientNutrition mi ii gw (loggedMeals s) s = Inr s'"
      by (simp add: selectMeasurement_def)
    from rescale_stored [OF this] show ?thesis
      using 2 ev same stored [of mi ii] by auto
  qed
next
  case ev: (CustomGramInput mi ii g)
  show ?thesis
  proof (cases rule: orUnchanged_cases [of s "handleCustomGramInput mi ii g s"])
    case 1
    then show ?thesis using same ev by simp
  next
    case (2 s')
    from custom_stored [OF 2(1)] show ?thesis
      using 2 ev same stored [of mi ii] by auto
  qed
next
  case ev: (ResetNutrition mi ii)
  show ?thesis
  proof (cases rule: orUnchanged_cases [of s "resetToOriginalNutrition mi ii s"])
    case 1
    then show ?thesis using same ev by simp
  next
    case (2 s')
    from reset_stored [OF 2(1)] show ?thesis
      using 2 ev same stored [of mi ii] by auto
  qed
qed

lemma logFood_cases:
  "(logFood s outcome = s\<lparr>error := error (logFood s outcome)\<rparr>)
   \<or> (\<exists>d batch. outcome = Ok \<lparr>api_dailyTotals = Some d, api_loggedMeals = Some batch\<rparr>
        \<and> trim (foodInput s) \<noteq> []
        \<and> logFood s outcome =
            s\<lparr>foodInput := [], error := [], loggedMeals := loggedMeals s @ batch,
              dailyTotals := sumMeals (loggedMeals s @ batch)\<rparr>)"
proof (cases "trim (foodInput s) = []")
  case True
  then show ?thesis by (simp add: logFood_def)
next
  case False
  show ?thesis
  proof (cases outcome)
    case (Rejected msg)
    then show ?thesis using False by (simp add: logFood_def logFood_try_def)
  next
    case (NotOk errorData)
    then show ?thesis using False by (simp add: logFood_def logFood_try_def)
  next
    case (Ok data)
    show ?thesis
    proof (cases "api_dailyTotals data")
      case None
      then show ?thesis using False Ok by (simp add: logFood_def logFood_try_def)
    next
      case d: (Some d)
      show ?thesis
      proof (cases "api_loggedMeals data")
        case None
        then show ?thesis using False Ok d by (simp add: logFood_def logFood_try_def)
      next
        case (Some batch)
        have "data = \<lparr>api_dailyTotals = Some d, api_loggedMeals = Some batch\<rparr>"
          using d Some by (cases data) simp
        then show ?thesis
          using False Ok
          by (simp add: logFood_def logFood_try_def recalculateDailyTotals_def Let_def)
      qed
    qed
  qed
qed

subsection \<open>Invariants of a step\<close>

lemma run_snoc: "run (evs @ [ev]) = step (run evs) ev"
  by (simp add: run_def)

lemma step_fresh:
  assumes "loggedMeals (step s ev) \<noteq> loggedMeals s \<or> dailyTotals (step s ev) \<noteq> dailyTotals s"
  shows "dailyTotals (step s ev) = sumMeals (loggedMeals (step s ev))"
proof (cases rule: step_cases [where s = s and ev = ev])
  case (input i)
  then show ?thesis using assms by simp
next
  case (log outcome)
  from logFood_cases [of s outcome] show ?thesis
  proof
    assume "logFood s outcome = s\<lparr>error := error (logFood s outcome)\<rparr>"
    then have "loggedMeals (logFood s outcome) = loggedMeals s"
        "dailyTotals (logFood s outcome) = dailyTotals s"
      by (metis CalorieTracker.select_convs(3,4) CalorieTracker.surjective
          CalorieTracker.update_convs(2))+
    then show ?thesis using assms log by simp
  next
    assume "\<exists>d batch. outcome = Ok \<lparr>api_dailyTotals = Some d, api_loggedMeals = Some batch\<rparr>
        \<and> trim (foodInput s) \<noteq> []
        \<and> logFood s outcome =
            s\<lparr>foodInput := [], error := [], loggedMeals := loggedMeals s @ batch,
              dailyTotals := sumMeals (loggedMeals s @ batch)\<rparr>"
    then show ?thesis using log by auto
  qed
next
  case (remove index)
  then show ?thesis
    by (simp add: removeMeal_def recalculateDailyTotals_def Let_def)
next
  case same
  then show ?thesis using assms by simp
next
  case (stored mi ii x)
  then show ?thesis
    using storeIngredient_cases [of mi ii x "loggedMeals s" s "step s ev"] by simp
qed

lemma step_daily:
  assumes "dailyTotals s = sumMeals (loggedMeals s)"
  shows "dailyTotals (step s ev) = sumMeals (loggedMeals (step s ev))"
  using assms step_fresh [of s ev] by metis

lemma run_daily: "dailyTotals (run evs) = sumMeals (loggedMeals (run evs))"
proof (induction evs rule: rev_induct)
  case Nil
  then show ?case
    by (simp add: run_def initialState_def sumMeals_def)
next
  case (snoc ev evs)
  then show ?case
    unfolding run_snoc by (rule step_daily)
qed

lemma list_all_take_drop:
  assumes "list_all P xs"
  shows "list_all P (take i xs @ drop j xs)"
  using assms by (auto simp: list_all_iff dest: in_set_takeD in_set_dropD)

lemma list_all_update:
  assumes "list_all P xs" and "P y"
  shows "list_all P (xs[i := y])"
  using assms set_update_subset_insert [of xs i y] by (auto simp: list_all_iff)

lemma stored_meal_consistent:
  assumes "storeIngredient mi ii x meals s = Inr s'"
  shows "mealConsistent (loggedMeals s' ! mi)"
  using storeIngredient_cases [OF assms]
  by (simp add: mealConsistent_def sumIngredients_elementwise)

lemma stored_all_consistent:
  assumes "storeIngredient mi ii x meals s = Inr s'" and "list_all mealConsistent meals"
  shows "list_all mealConsistent (loggedMeals s')"
proof -
  have "loggedMeals s' = meals[mi := loggedMeals s' ! mi]"
    using storeIngredient_cases [OF assms(1)] by simp
  then show ?thesis
    using list_all_update [OF assms(2) stored_meal_consistent [OF assms(1)], of mi] by simp
qed

lemma step_consistent:
  assumes "list_all mealConsistent (loggedMeals s)" and "consistentBatch ev"
  shows "list_all mealConsistent (loggedMeals (step s ev))"
proof (cases rule: step_cases [where s = s and ev = ev])
  case (input i)
  then show ?thesis using assms by simp
next
  case (log outcome)
  from logFood_cases [of s outcome] show ?thesis
  proof
    assume "logFood s outcome = s\<lparr>error := error (logFood s outcome)\<rparr>"
    then have "loggedMeals (logFood s outcome) = loggedMeals s"
      by (metis CalorieTracker.select_convs(4) CalorieTracker.surjective
          CalorieTracker.update_convs(2))
    then show ?thesis using assms log by simp
  next
    assume "\<exists>d batch. outcome = Ok \<lparr>api_dailyTotals = Some d, api_loggedMeals = Some batch\<rparr>
        \<and> trim (foodInput s) \<noteq> []
        \<and> logFood s outcome =
            s\<lparr>foodInput := [], error := [], loggedMeals := loggedMeals s @ batch,
              dailyTotals := sumMeals (loggedMeals s @ batch)\<rparr>"
    then show ?thesis using log assms by auto
  qed
next
  case (remove index)
  then show ?thesis
    using list_all_take_drop [OF assms(1)]
    by (simp add: removeMeal_def recalculateDailyTotals_def Let_def filterIndex_eq)
next
  case same
  then show ?thesis using assms by simp
next
  case (stored mi ii x)
  then show ?thesis
    using stored_all_consistent [of mi ii x "loggedMeals s" s "step s ev"] assms by simp
qed

lemma run_consistent:
  assumes "list_all consistentBatch evs"
  shows "list_all mealConsistent (loggedMeals (run evs))"
  using assms
proof (induction evs rule: rev_induct)
  case Nil
  then show ?case
    by (simp add: run_def initialState_def)
next
  case (snoc ev evs)
  then show ?case
    unfolding run_snoc by (simp add: step_consistent)
qed

lemma run_exEvents:
  "run exEvents =
     \<lparr>foodInput = [], error = [],
      dailyTotals = \<lparr>calories = 300, protein = 15, carbs = 30, fat = 15 / 2\<rparr>,
      loggedMeals =
        [exMeal\<lparr>ingredients :=
                  [exIngredient\<lparr>nutrients :=
                     \<lparr>calories = 300, protein = 15, carbs = 30, fat = 15 / 2\<rparr>\<rparr>],
                total_nutrients :=
                  \<lparr>calories = 300, protein = 15, carbs = 30, fat = 15 / 2\<rparr>\<rparr>]\<rparr>"
proof -
  have t: "trim ''rice and an egg'' \<noteq> []"
    by (simp add: trim_def isSpace_def)
  have w: "originalGramWeight exIngredient = 100"
    by (simp add: exIngredient_def originalGramWeight_def servingInfoGramWeight_def
        matchAt_def isDigit_def parseFloatDigits_def digitValue_def orNumber_def)
  have n: "newNutrients exOriginal (3 / 2) =
      \<lparr>calories = 300, protein = 15, carbs = 30, fat = 15 / 2\<rparr>"
    by (simp add: newNutrients_def exOriginal_def double_simps)
  have o: "originalNutrients exIngredient = Some exOriginal" "ingredients exMeal = [exIngredient]"
      "exIngredient\<lparr>originalNutrients := Some exOriginal\<rparr> = exIngredient"
    by (simp_all add: exIngredient_def exMeal_def)
  show ?thesis
    by (simp add: run_def exEvents_def initialState_def logFood_def logFood_try_def t
        orUnchanged_def selectMeasurement_def recalculateIngredientNutrition_def w n o
        storeIngredient_def setIngredient_def snapshot_def recalculateMealTotals_def
        recalculateDailyTotals_def removeMeal_def filterIndex_eq Let_def
        sumIngredients_def sumMeals_def addNutrients_def zeroNutrients_def double_simps)
qed

section \<open>Rescaling\<close>

text \<open>
  Claim C1. When the reference gram weight \<open>R\<close> of the ingredient is positive and the
  requested gram weights \<open>W\<close> and \<open>W2\<close> are positive, a rescale to \<open>W\<close> succeeds, stores
  as \<open>originalNutrients\<close> the snapshot \<open>orig\<close> (the \<open>originalNutrients\<close> the ingredient
  had, and its nutrients when it had none), and sets the nutrients computed from \<open>orig\<close>
  and the multiplier \<open>W / R\<close> in double arithmetic: the calories are the nearest integer
  to the product, and protein, carbs and fat the double of \<open>k / 10\<close> for the nearest
  integer \<open>k\<close> to ten times the product, a tie going up. A second rescale, to \<open>W2\<close>,
  computes from the same \<open>orig\<close>, not from the nutrients the first one left, and keeps
  \<open>originalNutrients\<close>.
\<close>

theorem rescale_from_originalNutrients:
  assumes "mealIndex < length meals"
    and "ingredientIndex < length (ingredients (meals ! mealIndex))"
    and "ingredient = ingredients (meals ! mealIndex) ! ingredientIndex"
    and "0 < originalGramWeight ingredient" and "0 < W" and "0 < W2"
    and "orig = (case originalNutrients ingredient of
                   None \<Rightarrow> nutrients ingredient | Some n \<Rightarrow> n)"
  shows "\<exists>s' s''.
      recalculateIngredientNutrition mealIndex ingredientIndex W meals s = Inr s'
    \<and> recalculateIngredientNutrition mealIndex ingredientIndex W2 (loggedMeals s') s' = Inr s''
    \<and> (let x = ddiv W (originalGramWeight ingredient);
           x2 = ddiv W2 (originalGramWeight ingredient);
           i' = ingredients (loggedMeals s' ! mealIndex) ! ingredientIndex;
           i'' = ingredients (loggedMeals s'' ! mealIndex) ! ingredientIndex;
           n' = nutrients i'
       in originalNutrients i' = Some orig
        \<and> n' = \<lparr>calories = Math_round (dmul (calories orig) x),
                 protein = ddiv (Math_round (dmul (dmul (protein orig) x) 10)) 10,
                 carbs = ddiv (Math_round (dmul (dmul (carbs orig) x) 10)) 10,
                 fat = ddiv (Math_round (dmul (dmul (fat orig) x) 10)) 10\<rparr>
        \<and> calories n' \<in> \<int>
        \<and> dmul (calories orig) x - 1 / 2 < calories n'
        \<and> calories n' \<le> dmul (calories orig) x + 1 / 2
        \<and> (\<exists>k::int. protein n' = ddiv (of_int k) 10
              \<and> dmul (dmul (protein orig) x) 10 - 1 / 2 < of_int k
              \<and> of_int k \<le> dmul (dmul (protein orig) x) 10 + 1 / 2)
        \<and> (\<exists>k::int. carbs n' = ddiv (of_int k) 10
              \<and> dmul (dmul (carbs orig) x) 10 - 1 / 2 < of_int k
              \<and> of_int k \<le> dmul (dmul (carbs orig) x) 10 + 1 / 2)
        \<and> (\<exists>k::int. fat n' = ddiv (of_int k) 10
              \<and> dmul (dmul (fat orig) x) 10 - 1 / 2 < of_int k
              \<and> of_int k \<le> dmul (dmul (fat orig) x) 10 + 1 / 2)
        \<and> originalNutrients i'' = Some orig
        \<and> nutrients i'' =
            \<lparr>calories = Math_round (dmul (calories orig) x2),
             protein = ddiv (Math_round (dmul (dmul (protein orig) x2) 10)) 10,
             carbs = ddiv (Math_round (dmul (dmul (carbs orig) x2) 10)) 10,
             fat = ddiv (Math_round (dmul (dmul (fat orig) x2) 10)) 10\<rparr>)"
proof -
  define x where "x = ddiv W (originalGramWeight ingredient)"
  define x2 where "x2 = ddiv W2 (originalGramWeight ingredient)"
  define ing' where "ing' = ingredient\<lparr>originalNutrients := Some orig,
                                        nutrients := newNutrients orig x\<rparr>"
  define ing'' where "ing'' = ing'\<lparr>originalNutrients := Some orig,
                                   nutrients := newNutrients orig x2\<rparr>"
  have orig: "snapshot ingredient = orig"
    by (simp add: snapshot_def assms(7))
  have first: "recalculateIngredientNutrition mealIndex ingredientIndex W meals s =
      storeIngredient mealIndex ingredientIndex ing' meals s"
    using rescale_success [of mealIndex meals ingredientIndex W s] assms(1,2,4,5)
    unfolding assms(3) [symmetric] orig x_def [symmetric] ing'_def by simp
  obtain s' where s': "storeIngredient mealIndex ingredientIndex ing' meals s = Inr s'"
      "length (loggedMeals s') = length meals"
      "ingredients (loggedMeals s' ! mealIndex) =
         (ingredients (meals ! mealIndex))[ingredientIndex := ing']"
      "ingredients (loggedMeals s' ! mealIndex) ! ingredientIndex = ing'"
    using storeIngredient_result [OF assms(1,2), of ing' s] by blast
  have in': "mealIndex < length (loggedMeals s')"
      "ingredientIndex < length (ingredients (loggedMeals s' ! mealIndex))"
    using assms(1,2) s'(2,3) by simp_all
  have w': "originalGramWeight ing' = originalGramWeight ingredient"
    unfolding ing'_def by (rule originalGramWeight_update)
  have orig': "snapshot ing' = orig"
    by (simp add: snapshot_def ing'_def)
  have second: "recalculateIngredientNutrition mealIndex ingredientIndex W2 (loggedMeals s') s' =
      storeIngredient mealIndex ingredientIndex ing'' (loggedMeals s') s'"
    using rescale_success [OF in', of W2 s'] assms(4,6)
    unfolding s'(4) w' orig' x2_def [symmetric] ing''_def by simp
  obtain s'' where s'': "storeIngredient mealIndex ingredientIndex ing'' (loggedMeals s') s' = Inr s''"
      "ingredients (loggedMeals s'' ! mealIndex) ! ingredientIndex = ing''"
    using storeIngredient_result [OF in', of ing'' s'] by blast
  have n: "newNutrients orig y = \<lparr>calories = Math_round (dmul (calories orig) y),
                 protein = ddiv (Math_round (dmul (dmul (protein orig) y) 10)) 10,
                 carbs = ddiv (Math_round (dmul (dmul (carbs orig) y) 10)) 10,
                 fat = ddiv (Math_round (dmul (dmul (fat orig) y) 10)) 10\<rparr>" for y
    by (simp add: newNutrients_def)
  have "recalculateIngredientNutrition mealIndex ingredientIndex W meals s = Inr s'"
    by (simp add: first s'(1))
  moreover have "recalculateIngredientNutrition mealIndex ingredientIndex W2 (loggedMeals s') s'
      = Inr s''"
    by (simp add: second s''(1))
  moreover have "originalNutrients ing' = Some orig" "originalNutrients ing'' = Some orig"
      "nutrients ing' = newNutrients orig x" "nutrients ing'' = newNutrients orig x2"
    by (simp_all add: ing'_def ing''_def)
  ultimately show ?thesis
    using newNutrients_calories [of orig x] newNutrients_tenths [of orig x] n [of x] n [of x2]
    unfolding Let_def x_def [symmetric] x2_def [symmetric]
    by - (rule exI [of _ s'], rule exI [of _ s''], simp add: s'(4) s''(2))
qed

text \<open>
  Claim C1 on the example of the specification and on an ingredient that was never
  rescaled. The rice has the original nutrients 200, 10, 20, 5 at a reference of 100 g
  and the current nutrients 400, 20, 40, 10 of an earlier rescale: rescaled to 150 g it
  gets 300, 15, 30 and 7.5, and then to 50 g it gets 100, 5, 10 and 2.5. The oats have
  150, 15, 20, 5 at a reference of 100 g and no \<open>originalNutrients\<close>: rescaled to 41 g
  they get 61, 6.1, 8.2 and 2.1 (the product \<open>150 * (41 / 100)\<close> is a double below 61.5)
  and these values as \<open>originalNutrients\<close>, and then rescaled to 150 g they get 225,
  22.5, 30 and 7.5, computed from the stored values and not from 61, 6.1, 8.2 and 2.1.
\<close>

theorem rescale_example:
  "originalNutrients exIngredient = Some \<lparr>calories = 200, protein = 10, carbs = 20, fat = 5\<rparr>
   \<and> nutrients exIngredient = \<lparr>calories = 400, protein = 20, carbs = 40, fat = 10\<rparr>
   \<and> originalGramWeight exIngredient = 100
   \<and> (\<exists>s' s''. recalculateIngredientNutrition 0 0 150 [exMeal] exState = Inr s'
         \<and> recalculateIngredientNutrition 0 0 50 (loggedMeals s') s' = Inr s''
         \<and> nutrients (ingredients (loggedMeals s' ! 0) ! 0) =
             \<lparr>calories = 300, protein = 15, carbs = 30, fat = 15 / 2\<rparr>
         \<and> nutrients (ingredients (loggedMeals s'' ! 0) ! 0) =
             \<lparr>calories = 100, protein = 5, carbs = 10, fat = 5 / 2\<rparr>)
   \<and> originalNutrients exOats = None
   \<and> nutrients exOats = \<lparr>calories = 150, protein = 15, carbs = 20, fat = 5\<rparr>
   \<and> originalGramWeight exOats = 100
   \<and> (\<exists>s' s''. recalculateIngredientNutrition 0 0 41 [exOatsMeal] exOatsState = Inr s'
         \<and> recalculateIngredientNutrition 0 0 150 (loggedMeals s') s' = Inr s''
         \<and> originalNutrients (ingredients (loggedMeals s' ! 0) ! 0) =
             Some \<lparr>calories = 150, protein = 15, carbs = 20, fat = 5\<rparr>
         \<and> nutrients (ingredients (loggedMeals s' ! 0) ! 0) =
             \<lparr>calories = 61, protein = ddiv 61 10, carbs = ddiv 82 10, fat = ddiv 21 10\<rparr>
         \<and> originalNutrients (ingredients (loggedMeals s'' ! 0) ! 0) =
             Some \<lparr>calories = 150, protein = 15, carbs = 20, fat = 5\<rparr>
         \<and> nutrients (ingredients (loggedMeals s'' ! 0) ! 0) =
             \<lparr>calories = 225, protein = 45 / 2, carbs = 30, fat = 15 / 2\<rparr>)"
proof -
  have w: "originalGramWeight exIngredient = 100" "originalGramWeight exOats = 100"
    by (simp_all add: resolve_defs exIngredient_def exOats_def)
  have o: "originalNutrients exIngredient = Some exOriginal"
      "nutrients exIngredient = \<lparr>calories = 400, protein = 20, carbs = 40, fat = 10\<rparr>"
      "originalNutrients exOats = None"
      "nutrients exOats = \<lparr>calories = 150, protein = 15, carbs = 20, fat = 5\<rparr>"
    by (simp_all add: exIngredient_def exOats_def)
  have m: "ingredients exMeal = [exIngredient]" "ingredients exOatsMeal = [exOats]"
    by (simp_all add: exMeal_def exOatsMeal_def)
  have a: "Math_round (dmul 200 (ddiv 150 100)) = 300"
      "ddiv (Math_round (dmul (dmul 10 (ddiv 150 100)) 10)) 10 = 15"
      "ddiv (Math_round (dmul (dmul 20 (ddiv 150 100)) 10)) 10 = 30"
      "ddiv (Math_round (dmul (dmul 5 (ddiv 150 100)) 10)) 10 = 15 / 2"
    by (simp_all add: double_simps)
  have b: "Math_round (dmul 200 (ddiv 50 100)) = 100"
      "ddiv (Math_round (dmul (dmul 10 (ddiv 50 100)) 10)) 10 = 5"
      "ddiv (Math_round (dmul (dmul 20 (ddiv 50 100)) 10)) 10 = 10"
      "ddiv (Math_round (dmul (dmul 5 (ddiv 50 100)) 10)) 10 = 5 / 2"
    by (simp_all add: double_simps)
  have c1: "Math_round (dmul 150 (ddiv 41 100)) = 61"
    by code_simp
  have c2: "Math_round (dmul (dmul 15 (ddiv 41 100)) 10) = 61"
    by code_simp
  have c3: "Math_round (dmul (dmul 20 (ddiv 41 100)) 10) = 82"
    by code_simp
  have c4: "Math_round (dmul (dmul 5 (ddiv 41 100)) 10) = 21"
    by code_simp
  have d: "Math_round (dmul 150 (ddiv 150 100)) = 225"
      "ddiv (Math_round (dmul (dmul 15 (ddiv 150 100)) 10)) 10 = 45 / 2"
    by (simp_all add: double_simps)
  have rice: "\<exists>s' s''. recalculateIngredientNutrition 0 0 150 [exMeal] exState = Inr s'
         \<and> recalculateIngredientNutrition 0 0 50 (loggedMeals s') s' = Inr s''
         \<and> nutrients (ingredients (loggedMeals s' ! 0) ! 0) =
             \<lparr>calories = 300, protein = 15, carbs = 30, fat = 15 / 2\<rparr>
         \<and> nutrients (ingredients (loggedMeals s'' ! 0) ! 0) =
             \<lparr>calories = 100, protein = 5, carbs = 10, fat = 5 / 2\<rparr>"
    using rescale_from_originalNutrients [of 0 "[exMeal]" 0 exIngredient 150 50 exOriginal exState]
    by (simp add: w o m Let_def) (auto simp: exOriginal_def a b)
  have oats: "\<exists>s' s''. recalculateIngredientNutrition 0 0 41 [exOatsMeal] exOatsState = Inr s'
         \<and> recalculateIngredientNutrition 0 0 150 (loggedMeals s') s' = Inr s''
         \<and> originalNutrients (ingredients (loggedMeals s' ! 0) ! 0) =
             Some \<lparr>calories = 150, protein = 15, carbs = 20, fat = 5\<rparr>
         \<and> nutrients (ingredients (loggedMeals s' ! 0) ! 0) =
             \<lparr>calories = 61, protein = ddiv 61 10, carbs = ddiv 82 10, fat = ddiv 21 10\<rparr>
         \<and> originalNutrients (ingredients (loggedMeals s'' ! 0) ! 0) =
             Some \<lparr>calories = 150, protein = 15, carbs = 20, fat = 5\<rparr>
         \<and> nutrients (ingredients (loggedMeals s'' ! 0) ! 0) =
             \<lparr>calories = 225, protein = 45 / 2, carbs = 30, fat = 15 / 2\<rparr>"
    using rescale_from_originalNutrients
      [of 0 "[exOatsMeal]" 0 exOats 41 150 "\<lparr>calories = 150, protein = 15, carbs = 20, fat = 5\<rparr>"
        exOatsState]
    by (simp add: w o m Let_def) (auto simp: c1 c2 c3 c4 d a)
  show ?thesis
    using rice oats by (simp add: w o exOriginal_def)
qed

text \<open>
  Claim C4. When the requested gram weight is not positive or the reference gram
  weight is 0, \<open>recalculateIngredientNutrition\<close> returns the state it was given: the
  nutrients and the snapshot of the ingredient, the totals of its meal and the daily
  totals are unchanged, and nothing is thrown or written to \<open>error\<close>.
\<close>

theorem rescale_noop_unchanged:
  assumes "mealIndex < length meals"
    and "ingredientIndex < length (ingredients (meals ! mealIndex))"
    and "W \<le> 0 \<or> originalGramWeight (ingredients (meals ! mealIndex) ! ingredientIndex) = 0"
  shows "recalculateIngredientNutrition mealIndex ingredientIndex W meals s = Inr s
    \<and> (meals = loggedMeals s \<longrightarrow>
         selectMeasurement mealIndex ingredientIndex measureIndex W s = Inr s
         \<and> step s (SelectMeasurement mealIndex ingredientIndex measureIndex W) = s)"
  using assms rescale_noop [of mealIndex meals ingredientIndex W s]
  by (auto simp: selectMeasurement_def orUnchanged_def)

text \<open>
  Claim C4 on the sample data: a requested weight of 0, and an ingredient without any
  reference weight.
\<close>

theorem rescale_noop_example:
  "recalculateIngredientNutrition 0 0 0 [exMeal] exState = Inr exState
   \<and> selectMeasurement 0 0 0 0 exState = Inr exState
   \<and> step exState (SelectMeasurement 0 0 0 0) = exState
   \<and> originalGramWeight exSoup = 0
   \<and> recalculateIngredientNutrition 0 0 150 [exSoupMeal] exSoupState = Inr exSoupState
   \<and> selectMeasurement 0 0 0 150 exSoupState = Inr exSoupState"
proof -
  have w: "originalGramWeight exSoup = 0"
    by (simp add: resolve_defs exSoup_def)
  have m: "ingredients exMeal = [exIngredient]" "loggedMeals exState = [exMeal]"
      "ingredients exSoupMeal = [exSoup]" "loggedMeals exSoupState = [exSoupMeal]"
    by (simp_all add: exMeal_def exState_def exSoupMeal_def exSoupState_def)
  show ?thesis
    using rescale_noop_unchanged [of 0 "[exMeal]" 0 0 exState 0]
      rescale_noop_unchanged [of 0 "[exSoupMeal]" 0 150 exSoupState 0]
    by (simp add: w m orUnchanged_def)
qed

text \<open>
  Claim C10. After a successful rescale the calories of the ingredient are an integer and
  each of its protein, carbs and fat is the double of \<open>k / 10\<close> for an integer \<open>k\<close>, the
  multiple of 0.1 as a double has it; and rescaling the sample egg, whose nutrients are
  not quantized, to its own reference weight of 50 g changes its nutrients, so
  rescaling to the reference weight is not the identity.
\<close>

theorem rescale_quantizes:
  "(mealIndex < length meals
      \<and> ingredientIndex < length (ingredients (meals ! mealIndex))
      \<and> 0 < originalGramWeight (ingredients (meals ! mealIndex) ! ingredientIndex)
      \<and> 0 < W \<longrightarrow>
    (\<exists>s'. recalculateIngredientNutrition mealIndex ingredientIndex W meals s = Inr s'
       \<and> (let n' = nutrients (ingredients (loggedMeals s' ! mealIndex) ! ingredientIndex)
          in calories n' \<in> \<int>
             \<and> (\<exists>k::int. protein n' = ddiv (of_int k) 10)
             \<and> (\<exists>k::int. carbs n' = ddiv (of_int k) 10)
             \<and> (\<exists>k::int. fat n' = ddiv (of_int k) 10))))
   \<and> (\<exists>s'. recalculateIngredientNutrition 0 0 (originalGramWeight exEgg)
               [exEggMeal] exEggState = Inr s'
         \<and> 0 < originalGramWeight exEgg
         \<and> ddiv (originalGramWeight exEgg) (originalGramWeight exEgg) = 1
         \<and> nutrients (ingredients (loggedMeals s' ! 0) ! 0) \<noteq> nutrients exEgg)"
proof (intro conjI impI)
  assume a: "mealIndex < length meals
      \<and> ingredientIndex < length (ingredients (meals ! mealIndex))
      \<and> 0 < originalGramWeight (ingredients (meals ! mealIndex) ! ingredientIndex)
      \<and> 0 < W"
  define ing where "ing = ingredients (meals ! mealIndex) ! ingredientIndex"
  define ing' where "ing' = ing\<lparr>originalNutrients := Some (snapshot ing),
      nutrients := newNutrients (snapshot ing) (ddiv W (originalGramWeight ing))\<rparr>"
  have "recalculateIngredientNutrition mealIndex ingredientIndex W meals s =
      storeIngredient mealIndex ingredientIndex ing' meals s"
    using a rescale_success [of mealIndex meals ingredientIndex W s]
    by (simp add: ing'_def ing_def)
  moreover obtain s' where "storeIngredient mealIndex ingredientIndex ing' meals s = Inr s'"
      "ingredients (loggedMeals s' ! mealIndex) ! ingredientIndex = ing'"
    using a storeIngredient_result [of mealIndex meals ingredientIndex ing' s] by blast
  moreover have "nutrients ing' = newNutrients (snapshot ing) (ddiv W (originalGramWeight ing))"
    by (simp add: ing'_def)
  moreover have "\<exists>k::int. protein (newNutrients orig y) = ddiv (of_int k) 10"
      "\<exists>k::int. carbs (newNutrients orig y) = ddiv (of_int k) 10"
      "\<exists>k::int. fat (newNutrients orig y) = ddiv (of_int k) 10" for orig y
    using newNutrients_tenths [of orig y] by blast+
  ultimately show "\<exists>s'. recalculateIngredientNutrition mealIndex ingredientIndex W meals s = Inr s'
       \<and> (let n' = nutrients (ingredients (loggedMeals s' ! mealIndex) ! ingredientIndex)
          in calories n' \<in> \<int>
             \<and> (\<exists>k::int. protein n' = ddiv (of_int k) 10)
             \<and> (\<exists>k::int. carbs n' = ddiv (of_int k) 10)
             \<and> (\<exists>k::int. fat n' = ddiv (of_int k) 10))"
    using newNutrients_calories(2) [of "snapshot ing" "ddiv W (originalGramWeight ing)"]
    by (simp add: Let_def)
next
  have w: "originalGramWeight exEgg = 50"
    by (simp add: resolve_defs exEgg_def)
  have x: "ddiv 50 50 = 1"
    by (simp add: double_simps)
  have n: "calories (newNutrients (nutrients exEgg) 1) = 72"
    by (simp add: newNutrients_def exEgg_def double_simps Math_round_def floor_eq_iff)
  have "recalculateIngredientNutrition 0 0 50 [exEggMeal] exEggState =
      storeIngredient 0 0 (exEgg\<lparr>originalNutrients := Some (nutrients exEgg),
         nutrients := newNutrients (nutrients exEgg) 1\<rparr>) [exEggMeal] exEggState"
    using rescale_success [of 0 "[exEggMeal]" 0 50 exEggState]
    by (simp add: w x exEggMeal_def snapshot_def) (simp add: exEgg_def)
  moreover have "calories (nutrients exEgg) \<noteq> 72"
    by (simp add: exEgg_def)
  ultimately show "\<exists>s'. recalculateIngredientNutrition 0 0 (originalGramWeight exEgg)
               [exEggMeal] exEggState = Inr s'
         \<and> 0 < originalGramWeight exEgg
         \<and> ddiv (originalGramWeight exEgg) (originalGramWeight exEgg) = 1
         \<and> nutrients (ingredients (loggedMeals s' ! 0) ! 0) \<noteq> nutrients exEgg"
    using n by (auto simp: w x storeIngredient_valid exEggMeal_def)
qed

text \<open>
  Claim C10 on the sample egg: 71.5, 6.28, 0.36 and 4.76 become 72, 6.3, 0.4 and 4.8.
\<close>

theorem rescale_quantizes_example:
  "\<exists>s'. recalculateIngredientNutrition 0 0 50 [exEggMeal] exEggState = Inr s'
     \<and> nutrients (ingredients (loggedMeals s' ! 0) ! 0) =
         \<lparr>calories = 72, protein = ddiv 63 10, carbs = ddiv 4 10, fat = ddiv 48 10\<rparr>"
proof -
  have w: "originalGramWeight exEgg = 50"
    by (simp add: resolve_defs exEgg_def)
  have m: "ingredients exEggMeal = [exEgg]"
    by (simp add: exEggMeal_def)
  have x: "ddiv 50 50 = 1"
    by (simp add: double_simps)
  have "\<exists>s'. recalculateIngredientNutrition 0 0 50 [exEggMeal] exEggState = Inr s'"
    using rescale_quantizes [of 0 "[exEggMeal]" 0 50 exEggState] by (auto simp: w m)
  then obtain s' where s': "recalculateIngredientNutrition 0 0 50 [exEggMeal] exEggState = Inr s'"
    by blast
  have c: "Math_round (dmul (143 / 2) 1) = 72"
    by (simp add: double_simps Math_round_def floor_eq_iff)
  have p: "Math_round (dmul (dmul (toDouble (157 / 25)) 1) 10) = 63"
    by code_simp
  have k: "Math_round (dmul (dmul (toDouble (9 / 25)) 1) 10) = 4"
    by code_simp
  have f: "Math_round (dmul (dmul (toDouble (119 / 25)) 1) 10) = 48"
    by code_simp
  have "nutrients (ingredients (loggedMeals s' ! 0) ! 0) =
         \<lparr>calories = 72, protein = ddiv 63 10, carbs = ddiv 4 10, fat = ddiv 48 10\<rparr>"
    using s' rescale_success [of 0 "[exEggMeal]" 0 50 exEggState]
    by (simp add: w m x storeIngredient_valid snapshot_def)
       (auto simp: exEgg_def newNutrients_def c p k f)
  then show ?thesis using s' by blast
qed

section \<open>Aggregation and the meal list\<close>

text \<open>
  Claim C9 as stated fails: the additions of the loop of \<open>recalculateMealTotals\<close> are
  rounded, so the order of the ingredients can change a sum. Three ingredients with
  0.1, 0.2 and 0.3 of protein sum to 0.6000000000000001 in this order and to 0.6 in
  the reverse order.
\<close>

theorem sumIngredients_order_dependent:
  "mset [exLeek, exOnion, exLemon] = mset [exLemon, exOnion, exLeek]
   \<and> protein (sumIngredients [exLemon, exOnion, exLeek]) =
       1351079888211149 / 2251799813685248
   \<and> protein (sumIngredients [exLeek, exOnion, exLemon]) =
       5404319552844595 / 9007199254740992
   \<and> sumIngredients [exLeek, exOnion, exLemon] \<noteq> sumIngredients [exLemon, exOnion, exLeek]"
proof -
  have m: "mset [exLeek, exOnion, exLemon] = mset [exLemon, exOnion, exLeek]"
    by simp
  have u: "doubleSum [toDouble (1 / 10), toDouble (1 / 5), toDouble (3 / 10)] =
      1351079888211149 / 2251799813685248"
    by code_simp
  have d: "doubleSum [toDouble (3 / 10), toDouble (1 / 5), toDouble (1 / 10)] =
      5404319552844595 / 9007199254740992"
    by code_simp
  have pu: "protein (sumIngredients [exLemon, exOnion, exLeek]) =
      1351079888211149 / 2251799813685248"
    by (simp add: sumIngredients_elementwise elementwiseSum_def exLemon_def exOnion_def
        exLeek_def u)
  have pd: "protein (sumIngredients [exLeek, exOnion, exLemon]) =
      5404319552844595 / 9007199254740992"
    by (simp add: sumIngredients_elementwise elementwiseSum_def exLemon_def exOnion_def
        exLeek_def d)
  have "protein (sumIngredients [exLeek, exOnion, exLemon]) \<noteq>
      protein (sumIngredients [exLemon, exOnion, exLeek])"
    unfolding pu pd by simp
  then have "sumIngredients [exLeek, exOnion, exLemon] \<noteq> sumIngredients [exLemon, exOnion, exLeek]"
    by metis
  then show ?thesis
    using m pu pd by simp
qed

text \<open>
  Claim C9, amended. \<open>sumIngredients\<close> returns the zero vector for the empty list and adds
  the nutrients of the ingredients field by field in the order of the list, each
  addition rounded to a double: the sum of a list extended by an ingredient is the sum
  of the list plus the nutrients of that ingredient. Two ingredients give the same sums
  in both orders. When the nutrient values of a list are whole numbers, not negative,
  with totals of at most \<open>2 ^ 53\<close>, every permutation of the list (every list with the same
  multiset of elements) gives the same sums, which are the exact ones.
\<close>

theorem sumIngredients_whole_order_independent:
  "sumIngredients [] = \<lparr>calories = 0, protein = 0, carbs = 0, fat = 0\<rparr>
   \<and> sumIngredients (xs @ [x]) =
       \<lparr>calories = dadd (calories (sumIngredients xs)) (calories (nutrients x)),
        protein = dadd (protein (sumIngredients xs)) (protein (nutrients x)),
        carbs = dadd (carbs (sumIngredients xs)) (carbs (nutrients x)),
        fat = dadd (fat (sumIngredients xs)) (fat (nutrients x))\<rparr>
   \<and> sumIngredients [a, b] = sumIngredients [b, a]
   \<and> (wholeNutrients xs \<and> mset ys = mset xs \<longrightarrow>
        sumIngredients ys = sumIngredients xs
        \<and> sumIngredients xs =
            \<lparr>calories = (\<Sum>i\<leftarrow>xs. calories (nutrients i)),
             protein = (\<Sum>i\<leftarrow>xs. protein (nutrients i)),
             carbs = (\<Sum>i\<leftarrow>xs. carbs (nutrients i)),
             fat = (\<Sum>i\<leftarrow>xs. fat (nutrients i))\<rparr>)"
proof (intro conjI impI)
  show "sumIngredients [] = \<lparr>calories = 0, protein = 0, carbs = 0, fat = 0\<rparr>"
    by (simp add: sumIngredients_def zeroNutrients_def)
next
  show "sumIngredients (xs @ [x]) =
       \<lparr>calories = dadd (calories (sumIngredients xs)) (calories (nutrients x)),
        protein = dadd (protein (sumIngredients xs)) (protein (nutrients x)),
        carbs = dadd (carbs (sumIngredients xs)) (carbs (nutrients x)),
        fat = dadd (fat (sumIngredients xs)) (fat (nutrients x))\<rparr>"
    by (simp add: sumIngredients_snoc addNutrients_def)
next
  have "dadd (dadd 0 u) v = dadd (dadd 0 v) u" for u v
    by (simp add: dadd_def add.commute)
  then show "sumIngredients [a, b] = sumIngredients [b, a]"
    by (simp add: sumIngredients_def addNutrients_def zeroNutrients_def)
next
  assume h: "wholeNutrients xs \<and> mset ys = mset xs"
  then have "wholeNutrients ys"
    using wholeNumbers_mset [of _ xs ys] by (simp add: wholeNutrients_def)
  then have "sumIngredients ys =
     \<lparr>calories = (\<Sum>i\<leftarrow>ys. calories (nutrients i)),
      protein = (\<Sum>i\<leftarrow>ys. protein (nutrients i)),
      carbs = (\<Sum>i\<leftarrow>ys. carbs (nutrients i)),
      fat = (\<Sum>i\<leftarrow>ys. fat (nutrients i))\<rparr>"
    by (rule sumIngredients_whole)
  moreover have "(\<Sum>i\<leftarrow>ys. f (nutrients i)) = (\<Sum>i\<leftarrow>xs. f (nutrients i))"
    for f :: "Nutrients \<Rightarrow> rat"
    using h sum_list_mset_cong [of ys xs] by simp
  moreover have "sumIngredients xs =
     \<lparr>calories = (\<Sum>i\<leftarrow>xs. calories (nutrients i)),
      protein = (\<Sum>i\<leftarrow>xs. protein (nutrients i)),
      carbs = (\<Sum>i\<leftarrow>xs. carbs (nutrients i)),
      fat = (\<Sum>i\<leftarrow>xs. fat (nutrients i))\<rparr>"
    using h by (simp add: sumIngredients_whole)
  ultimately show "sumIngredients ys = sumIngredients xs" 
    by simp
next
  assume "wholeNutrients xs \<and> mset ys = mset xs"
  then show "sumIngredients xs =
     \<lparr>calories = (\<Sum>i\<leftarrow>xs. calories (nutrients i)),
      protein = (\<Sum>i\<leftarrow>xs. protein (nutrients i)),
      carbs = (\<Sum>i\<leftarrow>xs. carbs (nutrients i)),
      fat = (\<Sum>i\<leftarrow>xs. fat (nutrients i))\<rparr>"
    by (simp add: sumIngredients_whole)
qed

text \<open>
  Claim C9, amended, on three sample ingredients with whole nutrient values, in two
  orders.
\<close>

theorem sumIngredients_whole_example:
  "wholeNutrients [exIngredient, exSoup, exBoth]
   \<and> mset [exBoth, exIngredient, exSoup] = mset [exIngredient, exSoup, exBoth]
   \<and> sumIngredients [exBoth, exIngredient, exSoup] = sumIngredients [exIngredient, exSoup, exBoth]
   \<and> sumIngredients [exIngredient, exSoup, exBoth] =
       \<lparr>calories = 768, protein = 70, carbs = 58, fat = 18\<rparr>"
proof -
  have w: "wholeNutrients [exIngredient, exSoup, exBoth]"
    by (simp add: wholeNutrients_def wholeNumbers_def exIngredient_def exSoup_def exBoth_def)
  have m: "mset [exBoth, exIngredient, exSoup] = mset [exIngredient, exSoup, exBoth]"
    by simp
  have n: "nutrients exIngredient = \<lparr>calories = 400, protein = 20, carbs = 40, fat = 10\<rparr>"
      "nutrients exSoup = \<lparr>calories = 120, protein = 4, carbs = 18, fat = 3\<rparr>"
      "nutrients exBoth = \<lparr>calories = 248, protein = 46, carbs = 0, fat = 5\<rparr>"
    by (simp_all add: exIngredient_def exSoup_def exBoth_def)
  show ?thesis
    using sumIngredients_whole_order_independent
      [of "[exIngredient, exSoup, exBoth]" exSoup exSoup exBoth
        "[exBoth, exIngredient, exSoup]"] w m
    by (simp add: n)
qed

text \<open>
  Claim C8. For an index within the meal list, \<open>removeMeal\<close> leaves the meals before the
  index followed by the meals after it, each as it was, and sets the daily totals to the
  element-wise sum of the remaining meals' totals; removing index 1 of three meals
  leaves the first and the third.
\<close>

theorem removeMeal_deletes:
  assumes "index < length (loggedMeals s)"
  shows "loggedMeals (removeMeal index s) =
           take index (loggedMeals s) @ drop (Suc index) (loggedMeals s)
    \<and> length (loggedMeals (removeMeal index s)) = length (loggedMeals s) - 1
    \<and> (\<forall>j. j < index \<longrightarrow> loggedMeals (removeMeal index s) ! j = loggedMeals s ! j)
    \<and> (\<forall>j. index \<le> j \<and> Suc j < length (loggedMeals s) \<longrightarrow>
          loggedMeals (removeMeal index s) ! j = loggedMeals s ! Suc j)
    \<and> dailyTotals (removeMeal index s) =
        elementwiseSum (map total_nutrients (loggedMeals (removeMeal index s)))
    \<and> (\<forall>a b c. loggedMeals s = [a, b, c] \<and> index = 1 \<longrightarrow>
          loggedMeals (removeMeal index s) = [a, c])"
proof -
  have eq: "loggedMeals (removeMeal index s) =
      take index (loggedMeals s) @ drop (Suc index) (loggedMeals s)"
    by (simp add: removeMeal_def recalculateDailyTotals_def filterIndex_eq Let_def)
  have len: "length (loggedMeals (removeMeal index s)) = length (loggedMeals s) - 1"
    unfolding eq using assms by simp
  have before: "loggedMeals (removeMeal index s) ! j = loggedMeals s ! j" if "j < index" for j
    unfolding eq using that assms by (simp add: nth_append)
  have after: "loggedMeals (removeMeal index s) ! j = loggedMeals s ! Suc j"
    if "index \<le> j \<and> Suc j < length (loggedMeals s)" for j
  proof -
    define d where "d = j - index"
    have d: "j = index + d"
      using that by (simp add: d_def)
    show ?thesis
      unfolding eq using that assms by (simp add: nth_append d min_def)
  qed
  have daily: "dailyTotals (removeMeal index s) =
      elementwiseSum (map total_nutrients (loggedMeals (removeMeal index s)))"
    by (simp add: removeMeal_def recalculateDailyTotals_def Let_def sumMeals_elementwise)
  have three: "loggedMeals (removeMeal index s) = [a, c]"
    if "loggedMeals s = [a, b, c] \<and> index = 1" for a b c
    unfolding eq using that by simp
  have b: "\<forall>j. j < index \<longrightarrow> loggedMeals (removeMeal index s) ! j = loggedMeals s ! j"
    using before by blast
  have a: "\<forall>j. index \<le> j \<and> Suc j < length (loggedMeals s) \<longrightarrow>
          loggedMeals (removeMeal index s) ! j = loggedMeals s ! Suc j"
    using after by blast
  have t: "\<forall>a b c. loggedMeals s = [a, b, c] \<and> index = 1 \<longrightarrow>
          loggedMeals (removeMeal index s) = [a, c]"
    using three by blast
  show ?thesis
    by (intro conjI) (rule eq len b a daily t)+
qed

text \<open>Claim C8 on the sample day of three meals.\<close>

theorem removeMeal_example:
  "loggedMeals exDay = [exMeal, exEggMeal, exSoupMeal]
   \<and> loggedMeals (removeMeal 1 exDay) = [exMeal, exSoupMeal]
   \<and> dailyTotals (removeMeal 1 exDay) = \<lparr>calories = 520, protein = 24, carbs = 58, fat = 13\<rparr>"
proof -
  have l: "loggedMeals exDay = [exMeal, exEggMeal, exSoupMeal]"
    by (simp add: exDay_def)
  have t: "elementwiseSum [total_nutrients exMeal, total_nutrients exSoupMeal] =
      \<lparr>calories = 520, protein = 24, carbs = 58, fat = 13\<rparr>"
    by (simp add: elementwiseSum_def doubleSum_def double_simps exMeal_def exIngredient_def
        exSoupMeal_def exSoup_def)
  show ?thesis
    using removeMeal_deletes [of 1 exDay] by (simp add: l t)
qed

section \<open>The store\<close>

text \<open>
  Claim C6. In every state reached from the initial one by any events, the stored daily
  totals are the element-wise sum of the logged meals' \<open>total_nutrients\<close>; from any
  state, an event that changes the meal list or the daily totals leaves them so; and
  the value of \<open>dailyTotals\<close> in the response has no effect on the state after
  \<open>logFood\<close>.
\<close>

theorem dailyTotals_recomputed:
  "dailyTotals (run evs) = elementwiseSum (map total_nutrients (loggedMeals (run evs)))
   \<and> (loggedMeals (step s ev) \<noteq> loggedMeals s \<or> dailyTotals (step s ev) \<noteq> dailyTotals s \<longrightarrow>
        dailyTotals (step s ev) = elementwiseSum (map total_nutrients (loggedMeals (step s ev))))
   \<and> logFood s (Ok \<lparr>api_dailyTotals = Some d, api_loggedMeals = batch\<rparr>) =
       logFood s (Ok \<lparr>api_dailyTotals = Some d', api_loggedMeals = batch\<rparr>)"
proof (intro conjI impI)
  show "dailyTotals (run evs) = elementwiseSum (map total_nutrients (loggedMeals (run evs)))"
    using run_daily [of evs] by (simp add: sumMeals_elementwise)
next
  assume "loggedMeals (step s ev) \<noteq> loggedMeals s \<or> dailyTotals (step s ev) \<noteq> dailyTotals s"
  then show "dailyTotals (step s ev) =
      elementwiseSum (map total_nutrients (loggedMeals (step s ev)))"
    using step_fresh [of s ev] by (simp add: sumMeals_elementwise)
next
  show "logFood s (Ok \<lparr>api_dailyTotals = Some d, api_loggedMeals = batch\<rparr>) =
       logFood s (Ok \<lparr>api_dailyTotals = Some d', api_loggedMeals = batch\<rparr>)"
    by (simp add: logFood_def logFood_try_def)
qed

text \<open>
  Claim C6 on the sample session, whose response carries the daily totals 1, 2, 3, 4:
  after the batch, the rescale and the removal the stored totals are those of the
  one meal left.
\<close>

theorem dailyTotals_example:
  "dailyTotals (run exEvents) = \<lparr>calories = 300, protein = 15, carbs = 30, fat = 15 / 2\<rparr>
   \<and> dailyTotals (step exDay (RemoveMeal 1)) =
       \<lparr>calories = 520, protein = 24, carbs = 58, fat = 13\<rparr>"
proof -
  have l: "loggedMeals (removeMeal (Suc 0) exDay) = [exMeal, exSoupMeal]"
      "loggedMeals exDay = [exMeal, exEggMeal, exSoupMeal]"
    by (simp_all add: removeMeal_def recalculateDailyTotals_def filterIndex_eq exDay_def Let_def)
  have t: "elementwiseSum [total_nutrients exMeal, total_nutrients exSoupMeal] =
      \<lparr>calories = 520, protein = 24, carbs = 58, fat = 13\<rparr>"
    by (simp add: elementwiseSum_def doubleSum_def double_simps exMeal_def exIngredient_def
        exSoupMeal_def exSoup_def)
  have "dailyTotals (run exEvents) =
      elementwiseSum (map total_nutrients (loggedMeals (run exEvents)))"
    using dailyTotals_recomputed [of exEvents] by simp
  moreover have "dailyTotals (step exDay (RemoveMeal 1)) =
      elementwiseSum (map total_nutrients (loggedMeals (step exDay (RemoveMeal 1))))"
    using dailyTotals_recomputed [of "[]" exDay "RemoveMeal 1"] by (simp add: l)
  ultimately show ?thesis
    by (simp add: l t) (simp add: run_exEvents elementwiseSum_def doubleSum_def double_simps)
qed

text \<open>
  Claim C7. When a request was made (the trimmed input is not empty) and the response
  lacks \<open>dailyTotals\<close> or \<open>loggedMeals\<close>, the \<open>try\<close> block throws the invalid-response
  error, its message is stored in \<open>error\<close>, and nothing else changes: the meal list
  and the daily totals are as before.
\<close>

theorem logFood_invalid_response:
  assumes "trim (foodInput s) \<noteq> []"
    and "api_dailyTotals data = None \<or> api_loggedMeals data = None"
  shows "logFood_try (s\<lparr>error := []\<rparr>) (Ok data) =
           Inl ''Invalid response format from AI. Please try again.''
    \<and> logFood s (Ok data) = s\<lparr>error := ''Invalid response format from AI. Please try again.''\<rparr>
    \<and> loggedMeals (logFood s (Ok data)) = loggedMeals s
    \<and> dailyTotals (logFood s (Ok data)) = dailyTotals s"
proof -
  have "logFood_try (s\<lparr>error := []\<rparr>) (Ok data) =
      Inl ''Invalid response format from AI. Please try again.''"
    using assms(2) by (auto simp: logFood_try_def split: option.splits)
  then show ?thesis
    using assms(1) by (simp add: logFood_def)
qed

text \<open>Claim C7 on a response that has meals but no \<open>dailyTotals\<close>.\<close>

theorem logFood_invalid_example:
  "trim ''2 eggs'' \<noteq> [] \<and> api_dailyTotals exNoTotals = None
   \<and> api_loggedMeals exNoTotals = Some [exEggMeal]
   \<and> logFood (exState\<lparr>foodInput := ''2 eggs''\<rparr>) (Ok exNoTotals) =
       exState\<lparr>foodInput := ''2 eggs'',
               error := ''Invalid response format from AI. Please try again.''\<rparr>
   \<and> loggedMeals (logFood (exState\<lparr>foodInput := ''2 eggs''\<rparr>) (Ok exNoTotals)) = [exMeal]"
proof -
  have t: "trim ''2 eggs'' \<noteq> []"
    by (simp add: trim_def isSpace_def)
  show ?thesis
    using logFood_invalid_response [of "exState\<lparr>foodInput := ''2 eggs''\<rparr>" exNoTotals] t
    by (simp add: exNoTotals_def) (simp add: exState_def)
qed

text \<open>
  Claim C5 as stated fails: \<open>logFood\<close> stores the meals of a response as they arrive,
  so a meal sent with totals that are not the sum of its ingredients is logged with
  those totals.
\<close>

theorem appended_meal_totals_kept:
  "loggedMeals (run [SetFoodInput ''soup'', LogFood (Ok exBadResponse)]) = [exBadMeal]
   \<and> total_nutrients exBadMeal = \<lparr>calories = 0, protein = 0, carbs = 0, fat = 0\<rparr>
   \<and> elementwiseSum (map nutrients (ingredients exBadMeal)) =
       \<lparr>calories = 120, protein = 4, carbs = 18, fat = 3\<rparr>
   \<and> \<not> list_all mealConsistent
         (loggedMeals (run [SetFoodInput ''soup'', LogFood (Ok exBadResponse)]))"
proof -
  have r: "loggedMeals (run [SetFoodInput ''soup'', LogFood (Ok exBadResponse)]) = [exBadMeal]"
    by (simp add: run_def initialState_def logFood_def logFood_try_def trim_def isSpace_def
        exBadResponse_def recalculateDailyTotals_def Let_def)
  have t: "total_nutrients exBadMeal = \<lparr>calories = 0, protein = 0, carbs = 0, fat = 0\<rparr>"
    by (simp add: exBadMeal_def)
  have e: "elementwiseSum (map nutrients (ingredients exBadMeal)) =
       \<lparr>calories = 120, protein = 4, carbs = 18, fat = 3\<rparr>"
    by (simp add: exBadMeal_def exSoup_def elementwiseSum_def doubleSum_def double_simps)
  show ?thesis
    unfolding r by (simp add: mealConsistent_def t e)
qed

text \<open>
  Claim C5, amended. When every batch of meals arrives with totals equal to the
  element-wise sum of its ingredients' nutrients, every logged meal has such totals in
  every state reached; and a rescale or a reset that changes the state leaves the
  totals of the meal it changed equal to that sum, whatever they were before.
\<close>

theorem meal_totals_consistent:
  "(list_all consistentBatch evs \<longrightarrow> list_all mealConsistent (loggedMeals (run evs)))
   \<and> (recalculateIngredientNutrition mi ii W (loggedMeals s) s = Inr s' \<and> s' \<noteq> s \<longrightarrow>
        total_nutrients (loggedMeals s' ! mi) =
          elementwiseSum (map nutrients (ingredients (loggedMeals s' ! mi))))
   \<and> (resetToOriginalNutrition mi ii s = Inr s' \<and> s' \<noteq> s \<longrightarrow>
        total_nutrients (loggedMeals s' ! mi) =
          elementwiseSum (map nutrients (ingredients (loggedMeals s' ! mi))))"
proof (intro conjI impI)
  assume "list_all consistentBatch evs"
  then show "list_all mealConsistent (loggedMeals (run evs))"
    by (rule run_consistent)
next
  assume "recalculateIngredientNutrition mi ii W (loggedMeals s) s = Inr s' \<and> s' \<noteq> s"
  then obtain x where "storeIngredient mi ii x (loggedMeals s) s = Inr s'"
    using rescale_stored [of mi ii W "loggedMeals s" s s'] by blast
  then show "total_nutrients (loggedMeals s' ! mi) =
          elementwiseSum (map nutrients (ingredients (loggedMeals s' ! mi)))"
    using stored_meal_consistent by (simp add: mealConsistent_def)
next
  assume "resetToOriginalNutrition mi ii s = Inr s' \<and> s' \<noteq> s"
  then obtain x where "storeIngredient mi ii x (loggedMeals s) s = Inr s'"
    using reset_stored [of mi ii s s'] by blast
  then show "total_nutrients (loggedMeals s' ! mi) =
          elementwiseSum (map nutrients (ingredients (loggedMeals s' ! mi)))"
    using stored_meal_consistent by (simp add: mealConsistent_def)
qed

text \<open>Claim C5, amended, on the sample session and on a reset of the rescaled rice.\<close>

theorem meal_totals_example:
  "list_all consistentBatch exEvents
   \<and> list_all mealConsistent (loggedMeals (run exEvents))
   \<and> resetToOriginalNutrition 0 0 exState \<noteq> Inr exState
   \<and> (\<exists>s'. resetToOriginalNutrition 0 0 exState = Inr s'
         \<and> total_nutrients (loggedMeals s' ! 0) =
             \<lparr>calories = 200, protein = 10, carbs = 20, fat = 5\<rparr>)"
proof -
  have b: "list_all consistentBatch exEvents"
    by (simp add: exEvents_def mealConsistent_def elementwiseSum_def doubleSum_def
        double_simps exMeal_def exIngredient_def exEggMeal_def exEgg_def)
  have r: "resetToOriginalNutrition 0 0 exState =
      Inr (exState\<lparr>loggedMeals := [exMeal\<lparr>ingredients := [exIngredient\<lparr>nutrients := exOriginal\<rparr>],
                                          total_nutrients := exOriginal\<rparr>],
                   dailyTotals := exOriginal\<rparr>)"
    by (simp add: resetToOriginalNutrition_def Let_def exState_def exMeal_def exIngredient_def
        storeIngredient_def setIngredient_def recalculateMealTotals_def
        recalculateDailyTotals_def sumIngredients_def sumMeals_def addNutrients_def
        zeroNutrients_def double_simps exOriginal_def)
  have n: "exState\<lparr>loggedMeals := [exMeal\<lparr>ingredients := [exIngredient\<lparr>nutrients := exOriginal\<rparr>],
                                          total_nutrients := exOriginal\<rparr>],
                   dailyTotals := exOriginal\<rparr> \<noteq> exState"
    by code_simp
  show ?thesis
    using meal_totals_consistent [of exEvents 0 0 0 exState
        "exState\<lparr>loggedMeals := [exMeal\<lparr>ingredients := [exIngredient\<lparr>nutrients := exOriginal\<rparr>],
                                          total_nutrients := exOriginal\<rparr>],
                   dailyTotals := exOriginal\<rparr>"] b r n
    by (simp add: elementwiseSum_def doubleSum_def double_simps exOriginal_def)
qed

lemma stored_ingredient_at:
  assumes "storeIngredient mi' ii' x meals s = Inr s'"
    and "mi < length meals" and "ii < length (ingredients (meals ! mi))"
  shows "length (loggedMeals s') = length meals"
    and "length (ingredients (loggedMeals s' ! mi)) = length (ingredients (meals ! mi))"
    and "ingredients (loggedMeals s' ! mi) ! ii =
           (if mi = mi' \<and> ii = ii' then x else ingredients (meals ! mi) ! ii)"
proof -
  note c = storeIngredient_cases [OF assms(1)]
  show "length (loggedMeals s') = length meals"
    using c by simp
  show "length (ingredients (loggedMeals s' ! mi)) = length (ingredients (meals ! mi))"
    using c assms(2) by (cases "mi = mi'") simp_all
  show "ingredients (loggedMeals s' ! mi) ! ii =
           (if mi = mi' \<and> ii = ii' then x else ingredients (meals ! mi) ! ii)"
    using c assms(2,3) by (cases "mi = mi'"; cases "ii = ii'") simp_all
qed

lemma removed_nth:
  assumes "index \<noteq> mi" and "mi < length ms"
  shows "(if index < mi then mi - 1 else mi) < length (take index ms @ drop (Suc index) ms)
    \<and> (take index ms @ drop (Suc index) ms) ! (if index < mi then mi - 1 else mi) = ms ! mi"
proof (cases "index < mi")
  case True
  define d where "d = mi - Suc index"
  have mi: "mi = Suc index + d"
    using True by (simp add: d_def)
  show ?thesis
    using assms(2) unfolding mi by (simp add: nth_append min_def)
next
  case False
  then have "mi < index"
    using assms(1) by simp
  then show ?thesis
    using assms(2) by (simp add: nth_append)
qed

lemma step_keeps_ingredient:
  assumes "positionAfter mi ev = Some mi'"
    and "mi < length (loggedMeals s)" and "ii < length (ingredients (loggedMeals s ! mi))"
  shows "mi' < length (loggedMeals (step s ev))
    \<and> ii < length (ingredients (loggedMeals (step s ev) ! mi'))
    \<and> originalGramWeight (ingredients (loggedMeals (step s ev) ! mi') ! ii) =
        originalGramWeight (ingredients (loggedMeals s ! mi) ! ii)
    \<and> snapshot (ingredients (loggedMeals (step s ev) ! mi') ! ii) =
        snapshot (ingredients (loggedMeals s ! mi) ! ii)"
proof (cases "\<exists>index. ev = RemoveMeal index")
  case True
  then obtain index where ev: "ev = RemoveMeal index"
    by blast
  have p: "index \<noteq> mi" "mi' = (if index < mi then mi - 1 else mi)"
    using assms(1) unfolding ev by (simp_all split: if_splits)
  have l: "loggedMeals (step s ev) =
      take index (loggedMeals s) @ drop (Suc index) (loggedMeals s)"
    by (simp add: ev removeMeal_def recalculateDailyTotals_def filterIndex_eq Let_def)
  have "mi' < length (loggedMeals (step s ev))"
      "loggedMeals (step s ev) ! mi' = loggedMeals s ! mi"
    using removed_nth [OF p(1) assms(2)] unfolding l p(2) by simp_all
  then show ?thesis
    using assms(3) by simp
next
  case False
  then have same_position: "mi' = mi"
    using assms(1) by (cases ev) simp_all
  have "mi < length (loggedMeals (step s ev))
    \<and> ii < length (ingredients (loggedMeals (step s ev) ! mi))
    \<and> originalGramWeight (ingredients (loggedMeals (step s ev) ! mi) ! ii) =
        originalGramWeight (ingredients (loggedMeals s ! mi) ! ii)
    \<and> snapshot (ingredients (loggedMeals (step s ev) ! mi) ! ii) =
        snapshot (ingredients (loggedMeals s ! mi) ! ii)" (is ?keep)
  proof (cases rule: step_cases [where s = s and ev = ev])
    case (input i)
    then show ?keep using assms by simp
  next
    case (log outcome)
    from logFood_cases [of s outcome] show ?keep
    proof
      assume "logFood s outcome = s\<lparr>error := error (logFood s outcome)\<rparr>"
      then have "loggedMeals (logFood s outcome) = loggedMeals s"
        by (metis CalorieTracker.select_convs(4) CalorieTracker.surjective
            CalorieTracker.update_convs(2))
      then show ?keep using assms log by simp
    next
      assume "\<exists>d batch. outcome = Ok \<lparr>api_dailyTotals = Some d, api_loggedMeals = Some batch\<rparr>
          \<and> trim (foodInput s) \<noteq> []
          \<and> logFood s outcome =
              s\<lparr>foodInput := [], error := [], loggedMeals := loggedMeals s @ batch,
                dailyTotals := sumMeals (loggedMeals s @ batch)\<rparr>"
      then show ?keep using log assms by (auto simp: nth_append)
    qed
  next
    case (remove index)
    then show ?keep using False by simp
  next
    case same
    then show ?keep using assms by simp
  next
    case (stored mj ij x)
    note at = stored_ingredient_at [OF stored(1) assms(2,3)]
    show ?keep
    proof (cases "mi = mj \<and> ii = ij")
      case True
      have "originalGramWeight x = originalGramWeight (ingredients (loggedMeals s ! mi) ! ii)"
        using stored(3) True originalGramWeight_update by metis
      moreover have "snapshot x = snapshot (ingredients (loggedMeals s ! mi) ! ii)"
        using stored(4) True by (simp add: snapshot_def)
      ultimately show ?keep
        using at assms True by simp
    next
      case False
      then show ?keep
        using at assms by auto
    qed
  qed
  then show ?thesis
    unfolding same_position .
qed

lemma steps_keep_ingredient:
  assumes "trackMeal mi evs = Some mi1"
    and "mi < length (loggedMeals s)" and "ii < length (ingredients (loggedMeals s ! mi))"
  shows "mi1 < length (loggedMeals (foldl step s evs))
    \<and> ii < length (ingredients (loggedMeals (foldl step s evs) ! mi1))
    \<and> originalGramWeight (ingredients (loggedMeals (foldl step s evs) ! mi1) ! ii) =
        originalGramWeight (ingredients (loggedMeals s ! mi) ! ii)
    \<and> snapshot (ingredients (loggedMeals (foldl step s evs) ! mi1) ! ii) =
        snapshot (ingredients (loggedMeals s ! mi) ! ii)"
  using assms
proof (induction evs arbitrary: s mi)
  case Nil
  then show ?case by simp
next
  case (Cons ev evs)
  obtain mi' where k: "positionAfter mi ev = Some mi'" "trackMeal mi' evs = Some mi1"
    using Cons.prems(1) by (cases "positionAfter mi ev") simp_all
  note one = step_keeps_ingredient [OF k(1) Cons.prems(2,3)]
  have "mi' < length (loggedMeals (step s ev))"
      "ii < length (ingredients (loggedMeals (step s ev) ! mi'))"
    using one by simp_all
  from Cons.IH [OF k(2) this] show ?case
    using one by simp
qed

subsection \<open>The pattern match\<close>

lemma isDigit_g: "\<not> isDigit CHR ''g''"
  by (simp add: isDigit_def)

lemma digitsThenG_Some:
  assumes "digitsThenG s n = Some ds"
  shows "\<exists>k. 0 < k \<and> k \<le> n \<and> ds = take k s \<and> take 1 (drop k s) = ''g''"
  using assms
proof (induction n)
  case 0
  then show ?case by simp
next
  case (Suc n)
  show ?case
  proof (cases "take 1 (drop (Suc n) s) = ''g''")
    case True
    then have "ds = take (Suc n) s"
      using Suc.prems by simp
    then show ?thesis
      using True by blast
  next
    case False
    then have "digitsThenG s n = Some ds"
      using Suc.prems by simp
    from Suc.IH [OF this] show ?thesis
      using le_Suc_eq by blast
  qed
qed

lemma digitsThenG_hit:
  assumes "0 < n" and "take 1 (drop n s) = ''g''"
  shows "digitsThenG s n = Some (take n s)"
  using assms by (cases n) simp_all

lemma digitsThenG_None:
  assumes "digitsThenG s n = None" and "0 < k" and "k \<le> n"
  shows "take 1 (drop k s) \<noteq> ''g''"
  using assms
proof (induction n)
  case 0
  then show ?case by simp
next
  case (Suc n)
  then show ?case
    by (cases "k = Suc n") (auto split: if_splits)
qed

lemma take1_drop_g: "take 1 (drop k s) = ''g'' \<longleftrightarrow> k < length s \<and> s ! k = CHR ''g''"
proof (cases "k < length s")
  case True
  then have "drop k s = s ! k # drop (Suc k) s"
    by (simp add: Cons_nth_drop_Suc)
  then show ?thesis using True by simp
next
  case False
  then show ?thesis by simp
qed

lemma digitsBeforeG_takeWhile:
  assumes "digitsBeforeG s 0 n"
  shows "takeWhile isDigit s = take n s"
proof -
  have n: "n < length s" "s ! n = CHR ''g''" "list_all isDigit (take n s)"
    using assms by (simp_all add: digitsBeforeG_def)
  have "s = take n s @ s ! n # drop (Suc n) s"
    using n(1) by (rule id_take_nth_drop)
  then have "takeWhile isDigit s = takeWhile isDigit (take n s @ CHR ''g'' # drop (Suc n) s)"
    using n(2) by simp
  also have "\<dots> = take n s"
    using n(3) by (simp add: takeWhile_append2 list_all_iff isDigit_g)
  finally show ?thesis .
qed

lemma matchAt_Some_iff:
  "matchAt s = Some ds \<longleftrightarrow> (\<exists>n. digitsBeforeG s 0 n \<and> ds = take n s)"
proof
  assume "matchAt s = Some ds"
  then obtain k where k: "0 < k" "k \<le> length (takeWhile isDigit s)" "ds = take k s"
      "take 1 (drop k s) = ''g''"
    unfolding matchAt_def using digitsThenG_Some by blast
  have "take k s = take k (takeWhile isDigit s)"
    using k(2) by (metis takeWhile_dropWhile_id take_all take_append min.absorb2
        append_eq_conv_conj length_take take_take)
  then have "list_all isDigit (take k s)"
    by (metis in_set_takeD list_all_iff set_takeWhileD)
  moreover have "k < length s \<and> s ! k = CHR ''g''"
    using k(4) by (rule iffD1 [OF take1_drop_g])
  ultimately have "digitsBeforeG s 0 k"
    using k(1) by (simp add: digitsBeforeG_def)
  then show "\<exists>n. digitsBeforeG s 0 n \<and> ds = take n s"
    using k(3) by blast
next
  assume "\<exists>n. digitsBeforeG s 0 n \<and> ds = take n s"
  then obtain n where n: "digitsBeforeG s 0 n" "ds = take n s"
    by blast
  have "length (takeWhile isDigit s) = n"
    using digitsBeforeG_takeWhile [OF n(1)] n(1) by (simp add: digitsBeforeG_def)
  moreover have "0 < n"
    using n(1) by (simp add: digitsBeforeG_def)
  moreover have "n < length s \<and> s ! n = CHR ''g''"
    using n(1) by (simp add: digitsBeforeG_def)
  then have "take 1 (drop n s) = ''g''"
    by (rule iffD2 [OF take1_drop_g])
  ultimately show "matchAt s = Some ds"
    unfolding matchAt_def n(2) by (simp add: digitsThenG_hit)
qed

lemma matchAt_None_iff: "matchAt s = None \<longleftrightarrow> (\<forall>n. \<not> digitsBeforeG s 0 n)"
  using matchAt_Some_iff [of s] by (cases "matchAt s") auto

lemma digitsBeforeG_Cons: "digitsBeforeG (c # cs) (Suc i) n = digitsBeforeG cs i n"
  by (simp add: digitsBeforeG_def)

lemma digitsBeforeG_Nil: "\<not> digitsBeforeG [] i n"
  by (simp add: digitsBeforeG_def)

lemma digitsBeforeG_unique:
  assumes "digitsBeforeG s i n" and "digitsBeforeG s i n'"
  shows "n = n'"
proof -
  have False if a: "digitsBeforeG s i a" and b: "digitsBeforeG s i b" and "a < b" for a b
  proof -
    have "s ! (i + a) = CHR ''g''"
      using a by (simp add: digitsBeforeG_def)
    moreover have "take b (drop i s) ! a = s ! (i + a)"
      using b \<open>a < b\<close> by (simp add: digitsBeforeG_def)
    moreover have "isDigit (take b (drop i s) ! a)"
    proof -
      have "list_all isDigit (take b (drop i s))" "a < length (take b (drop i s))"
        using b \<open>a < b\<close> by (auto simp: digitsBeforeG_def)
      then show ?thesis
        unfolding list_all_length by blast
    qed
    ultimately show False
      using isDigit_g by simp
  qed
  then show ?thesis
    using assms by (metis linorder_neqE_nat)
qed

lemma gramMatch_None_iff: "gramMatch s = None \<longleftrightarrow> (\<forall>i n. \<not> digitsBeforeG s i n)"
proof (induction s)
  case Nil
  then show ?case by (simp add: digitsBeforeG_Nil)
next
  case (Cons c cs)
  have "(\<forall>i n. \<not> digitsBeforeG (c # cs) i n) \<longleftrightarrow>
      (\<forall>n. \<not> digitsBeforeG (c # cs) 0 n) \<and> (\<forall>i n. \<not> digitsBeforeG cs i n)"
    by (metis digitsBeforeG_Cons not0_implies_Suc)
  then show ?case
    using Cons.IH matchAt_None_iff [of "c # cs"]
    by (cases "matchAt (c # cs)") auto
qed

lemma gramMatch_Some:
  assumes "gramMatch s = Some ds"
  shows "\<exists>i n. digitsBeforeG s i n \<and> ds = take n (drop i s)
           \<and> (\<forall>i' n'. digitsBeforeG s i' n' \<longrightarrow> i \<le> i')"
  using assms
proof (induction s)
  case Nil
  then show ?case by simp
next
  case (Cons c cs)
  show ?case
  proof (cases "matchAt (c # cs)")
    case (Some ds')
    then have "ds' = ds"
      using Cons.prems by simp
    then obtain n where "digitsBeforeG (c # cs) 0 n" "ds = take n (c # cs)"
      using Some matchAt_Some_iff by blast
    then have "digitsBeforeG (c # cs) 0 n \<and> ds = take n (drop 0 (c # cs))
        \<and> (\<forall>i' n'. digitsBeforeG (c # cs) i' n' \<longrightarrow> 0 \<le> i')"
      by simp
    then show ?thesis by blast
  next
    case None
    then have "gramMatch cs = Some ds"
      using Cons.prems by simp
    from Cons.IH [OF this] obtain i n where
      i: "digitsBeforeG cs i n" "ds = take n (drop i cs)"
        "\<forall>i' n'. digitsBeforeG cs i' n' \<longrightarrow> i \<le> i'"
      by blast
    have first: "Suc i \<le> i'" if "digitsBeforeG (c # cs) i' n'" for i' n'
    proof (cases i')
      case 0
      then show ?thesis
        using that None matchAt_None_iff by blast
    next
      case (Suc j)
      then show ?thesis
        using that i(3) by (auto simp: digitsBeforeG_Cons)
    qed
    have "digitsBeforeG (c # cs) (Suc i) n \<and> ds = take n (drop (Suc i) (c # cs))"
      using i(1,2) by (simp add: digitsBeforeG_Cons)
    then show ?thesis
      using first by blast
  qed
qed

lemma firstDigitsBeforeG_iff:
  "firstDigitsBeforeG s i n \<longleftrightarrow>
     digitsBeforeG s i n \<and> (\<forall>i' n'. digitsBeforeG s i' n' \<longrightarrow> i \<le> i')"
proof -
  have "n' \<le> length s" if "digitsBeforeG s i' n'" for i' n'
    using that by (simp add: digitsBeforeG_def)
  then show ?thesis
    unfolding firstDigitsBeforeG_def by (metis not_le_imp_less leD)
qed

lemma gramMatch_first:
  assumes "firstDigitsBeforeG s i n"
  shows "gramMatch s = Some (take n (drop i s))"
proof (cases "gramMatch s")
  case None
  then show ?thesis
    using assms gramMatch_None_iff firstDigitsBeforeG_iff by blast
next
  case (Some ds)
  from gramMatch_Some [OF this] obtain j m where
    j: "digitsBeforeG s j m" "ds = take m (drop j s)"
      "\<forall>i' n'. digitsBeforeG s i' n' \<longrightarrow> j \<le> i'"
    by blast
  have "j = i"
    using j(1,3) assms firstDigitsBeforeG_iff by (meson le_antisym)
  moreover have "m = n"
    using j(1) assms digitsBeforeG_unique firstDigitsBeforeG_iff \<open>j = i\<close> by blast
  ultimately show ?thesis
    using Some j(2) by simp
qed

lemma gramMatch_none:
  assumes "\<forall>i n. \<not> firstDigitsBeforeG s i n"
  shows "gramMatch s = None"
proof (cases "gramMatch s")
  case None
  then show ?thesis .
next
  case (Some ds)
  from gramMatch_Some [OF this] show ?thesis
    using assms firstDigitsBeforeG_iff by blast
qed

lemma gramMatch_Some_first:
  assumes "gramMatch s = Some ds"
  shows "\<exists>i n. firstDigitsBeforeG s i n \<and> take n (drop i s) = ds"
  using gramMatch_Some [OF assms] firstDigitsBeforeG_iff by blast

lemma originalGramWeight_ai:
  assumes "ai_selected_portion ing = Some p" and "gramWeight p \<noteq> 0"
  shows "originalGramWeight ing = gramWeight p"
  using assms by (simp add: originalGramWeight_def)

lemma originalGramWeight_serving:
  assumes "ai_selected_portion ing = None
      \<or> (\<exists>p. ai_selected_portion ing = Some p \<and> gramWeight p = 0)"
    and "servingInfoGramWeight ing \<noteq> 0"
  shows "originalGramWeight ing = servingInfoGramWeight ing"
  using assms by (auto simp: originalGramWeight_def)

lemma originalGramWeight_measure:
  assumes "ai_selected_portion ing = None
      \<or> (\<exists>p. ai_selected_portion ing = Some p \<and> gramWeight p = 0)"
    and "servingInfoGramWeight ing = 0"
  shows "originalGramWeight ing =
     (case foodMeasures ing of
        [] \<Rightarrow> 0
      | m # _ \<Rightarrow> orNumber (measure_gramWeight m) (orNumber (gram_weight m) 0))"
  using assms by (auto simp: originalGramWeight_def split: list.splits)

lemma servingInfoGramWeight_first:
  assumes "firstDigitsBeforeG (serving_info ing) i n"
  shows "servingInfoGramWeight ing = parseFloatDigits (take n (drop i (serving_info ing)))"
  using gramMatch_first [OF assms] by (simp add: servingInfoGramWeight_def)

lemma servingInfoGramWeight_none:
  assumes "\<forall>i n. \<not> firstDigitsBeforeG (serving_info ing) i n"
  shows "servingInfoGramWeight ing = 0"
  using gramMatch_none [OF assms] by (simp add: servingInfoGramWeight_def)

lemma parseFloatDigits_snoc:
  "parseFloatDigits (ds @ [c]) = 10 * parseFloatDigits ds + of_nat (digitValue c)"
  by (simp add: parseFloatDigits_def)

section \<open>The reference gram weight\<close>

text \<open>
  Claim C3. The reference gram weight is \<open>ai_selected_portion.gramWeight\<close> when that
  field is present and not 0. Otherwise it is the decimal value of the first sequence
  of digits directly followed by \<open>g\<close> in \<open>serving_info\<close>, when that value is not 0.
  Otherwise, when there is no such sequence or its value is 0, it is taken from the
  first food measure: its \<open>gramWeight\<close> when present and not 0, else its
  \<open>gram_weight\<close> when present and not 0, else 0, and 0 when there is no food measure.
\<close>

theorem reference_gram_weight:
  "(\<forall>p. ai_selected_portion ing = Some p \<and> gramWeight p \<noteq> 0 \<longrightarrow>
        originalGramWeight ing = gramWeight p)
   \<and> (ai_selected_portion ing = None
        \<or> (\<exists>p. ai_selected_portion ing = Some p \<and> gramWeight p = 0) \<longrightarrow>
      (\<forall>i n. firstDigitsBeforeG (serving_info ing) i n
             \<and> parseFloatDigits (take n (drop i (serving_info ing))) \<noteq> 0 \<longrightarrow>
           originalGramWeight ing = parseFloatDigits (take n (drop i (serving_info ing))))
      \<and> ((\<forall>i n. \<not> firstDigitsBeforeG (serving_info ing) i n)
          \<or> (\<exists>i n. firstDigitsBeforeG (serving_info ing) i n
                \<and> parseFloatDigits (take n (drop i (serving_info ing))) = 0) \<longrightarrow>
         (foodMeasures ing = [] \<longrightarrow> originalGramWeight ing = 0)
         \<and> (\<forall>m ms. foodMeasures ing = m # ms \<longrightarrow>
              (\<forall>g. measure_gramWeight m = Some g \<and> g \<noteq> 0 \<longrightarrow> originalGramWeight ing = g)
              \<and> (measure_gramWeight m = None \<or> measure_gramWeight m = Some 0 \<longrightarrow>
                   (\<forall>g. gram_weight m = Some g \<and> g \<noteq> 0 \<longrightarrow> originalGramWeight ing = g)
                   \<and> (gram_weight m = None \<or> gram_weight m = Some 0 \<longrightarrow>
                        originalGramWeight ing = 0)))))
   \<and> parseFloatDigits [] = 0
   \<and> (\<forall>ds c. parseFloatDigits (ds @ [c]) = 10 * parseFloatDigits ds + of_nat (digitValue c))
   \<and> map digitValue ''0123456789'' = [0, 1, 2, 3, 4, 5, 6, 7, 8, 9]"
proof -
  have A: "\<forall>p. ai_selected_portion ing = Some p \<and> gramWeight p \<noteq> 0 \<longrightarrow>
        originalGramWeight ing = gramWeight p"
    using originalGramWeight_ai by blast
  have B: "ai_selected_portion ing = None
        \<or> (\<exists>p. ai_selected_portion ing = Some p \<and> gramWeight p = 0) \<longrightarrow>
      (\<forall>i n. firstDigitsBeforeG (serving_info ing) i n
             \<and> parseFloatDigits (take n (drop i (serving_info ing))) \<noteq> 0 \<longrightarrow>
           originalGramWeight ing = parseFloatDigits (take n (drop i (serving_info ing))))
      \<and> ((\<forall>i n. \<not> firstDigitsBeforeG (serving_info ing) i n)
          \<or> (\<exists>i n. firstDigitsBeforeG (serving_info ing) i n
                \<and> parseFloatDigits (take n (drop i (serving_info ing))) = 0) \<longrightarrow>
         (foodMeasures ing = [] \<longrightarrow> originalGramWeight ing = 0)
         \<and> (\<forall>m ms. foodMeasures ing = m # ms \<longrightarrow>
              (\<forall>g. measure_gramWeight m = Some g \<and> g \<noteq> 0 \<longrightarrow> originalGramWeight ing = g)
              \<and> (measure_gramWeight m = None \<or> measure_gramWeight m = Some 0 \<longrightarrow>
                   (\<forall>g. gram_weight m = Some g \<and> g \<noteq> 0 \<longrightarrow> originalGramWeight ing = g)
                   \<and> (gram_weight m = None \<or> gram_weight m = Some 0 \<longrightarrow>
                        originalGramWeight ing = 0))))"
  proof (rule impI, rule conjI)
    assume ai: "ai_selected_portion ing = None
        \<or> (\<exists>p. ai_selected_portion ing = Some p \<and> gramWeight p = 0)"
    show "\<forall>i n. firstDigitsBeforeG (serving_info ing) i n
             \<and> parseFloatDigits (take n (drop i (serving_info ing))) \<noteq> 0 \<longrightarrow>
           originalGramWeight ing = parseFloatDigits (take n (drop i (serving_info ing)))"
    proof (intro allI impI)
      fix i n
      assume f: "firstDigitsBeforeG (serving_info ing) i n
             \<and> parseFloatDigits (take n (drop i (serving_info ing))) \<noteq> 0"
      then have "servingInfoGramWeight ing =
          parseFloatDigits (take n (drop i (serving_info ing)))"
        using servingInfoGramWeight_first by blast
      then show "originalGramWeight ing =
          parseFloatDigits (take n (drop i (serving_info ing)))"
        using originalGramWeight_serving [OF ai] f by simp
    qed
  next
    assume ai: "ai_selected_portion ing = None
        \<or> (\<exists>p. ai_selected_portion ing = Some p \<and> gramWeight p = 0)"
    show "(\<forall>i n. \<not> firstDigitsBeforeG (serving_info ing) i n)
          \<or> (\<exists>i n. firstDigitsBeforeG (serving_info ing) i n
                \<and> parseFloatDigits (take n (drop i (serving_info ing))) = 0) \<longrightarrow>
         (foodMeasures ing = [] \<longrightarrow> originalGramWeight ing = 0)
         \<and> (\<forall>m ms. foodMeasures ing = m # ms \<longrightarrow>
              (\<forall>g. measure_gramWeight m = Some g \<and> g \<noteq> 0 \<longrightarrow> originalGramWeight ing = g)
              \<and> (measure_gramWeight m = None \<or> measure_gramWeight m = Some 0 \<longrightarrow>
                   (\<forall>g. gram_weight m = Some g \<and> g \<noteq> 0 \<longrightarrow> originalGramWeight ing = g)
                   \<and> (gram_weight m = None \<or> gram_weight m = Some 0 \<longrightarrow>
                        originalGramWeight ing = 0)))"
    proof (rule impI)
      assume f: "(\<forall>i n. \<not> firstDigitsBeforeG (serving_info ing) i n)
          \<or> (\<exists>i n. firstDigitsBeforeG (serving_info ing) i n
                \<and> parseFloatDigits (take n (drop i (serving_info ing))) = 0)"
      have z: "servingInfoGramWeight ing = 0"
        using f
      proof
        assume "\<forall>i n. \<not> firstDigitsBeforeG (serving_info ing) i n"
        then show ?thesis by (rule servingInfoGramWeight_none)
      next
        assume "\<exists>i n. firstDigitsBeforeG (serving_info ing) i n
                \<and> parseFloatDigits (take n (drop i (serving_info ing))) = 0"
        then obtain i n where "firstDigitsBeforeG (serving_info ing) i n"
            "parseFloatDigits (take n (drop i (serving_info ing))) = 0"
          by blast
        then show ?thesis
          using servingInfoGramWeight_first [of ing i n] by simp
      qed
      note m = originalGramWeight_measure [OF ai z]
      have none: "foodMeasures ing = [] \<longrightarrow> originalGramWeight ing = 0"
        using m by simp
      have some: "\<forall>m ms. foodMeasures ing = m # ms \<longrightarrow>
              (\<forall>g. measure_gramWeight m = Some g \<and> g \<noteq> 0 \<longrightarrow> originalGramWeight ing = g)
              \<and> (measure_gramWeight m = None \<or> measure_gramWeight m = Some 0 \<longrightarrow>
                   (\<forall>g. gram_weight m = Some g \<and> g \<noteq> 0 \<longrightarrow> originalGramWeight ing = g)
                   \<and> (gram_weight m = None \<or> gram_weight m = Some 0 \<longrightarrow>
                        originalGramWeight ing = 0))"
      proof (intro allI impI)
        fix fm ms
        assume "foodMeasures ing = fm # ms"
        then have "originalGramWeight ing =
            orNumber (measure_gramWeight fm) (orNumber (gram_weight fm) 0)"
          using m by simp
        then show "(\<forall>g. measure_gramWeight fm = Some g \<and> g \<noteq> 0 \<longrightarrow> originalGramWeight ing = g)
              \<and> (measure_gramWeight fm = None \<or> measure_gramWeight fm = Some 0 \<longrightarrow>
                   (\<forall>g. gram_weight fm = Some g \<and> g \<noteq> 0 \<longrightarrow> originalGramWeight ing = g)
                   \<and> (gram_weight fm = None \<or> gram_weight fm = Some 0 \<longrightarrow>
                        originalGramWeight ing = 0))"
          by (auto simp: orNumber_def)
      qed
      show "(foodMeasures ing = [] \<longrightarrow> originalGramWeight ing = 0)
         \<and> (\<forall>m ms. foodMeasures ing = m # ms \<longrightarrow>
              (\<forall>g. measure_gramWeight m = Some g \<and> g \<noteq> 0 \<longrightarrow> originalGramWeight ing = g)
              \<and> (measure_gramWeight m = None \<or> measure_gramWeight m = Some 0 \<longrightarrow>
                   (\<forall>g. gram_weight m = Some g \<and> g \<noteq> 0 \<longrightarrow> originalGramWeight ing = g)
                   \<and> (gram_weight m = None \<or> gram_weight m = Some 0 \<longrightarrow>
                        originalGramWeight ing = 0)))"
        using none some by (rule conjI)
    qed
  qed
  have C: "parseFloatDigits [] = 0"
    by (simp add: parseFloatDigits_def)
  have D: "\<forall>ds c. parseFloatDigits (ds @ [c]) =
      10 * parseFloatDigits ds + of_nat (digitValue c)"
    using parseFloatDigits_snoc by blast
  have E: "map digitValue ''0123456789'' = [0, 1, 2, 3, 4, 5, 6, 7, 8, 9]"
    by (simp add: digitValue_def)
  show ?thesis
    by (intro conjI) (fact A, fact B, fact C, fact D, fact E)
qed

text \<open>
  Claim C3 on the sample ingredients: 150 from the portion beside \<open>100g serving\<close>,
  56 from \<open>2 slices of 28 (56g)\<close>, and 240 from the \<open>gram_weight\<close> of the first food
  measure when the portion weighs 0 and the text gives \<open>0g\<close>.
\<close>

theorem reference_gram_weight_example:
  "serving_info exBoth = ''100g serving''
   \<and> originalGramWeight exBoth = 150
   \<and> originalGramWeight exSlices = 56
   \<and> originalGramWeight exCup = 240"
proof -
  have "originalGramWeight exBoth = 150"
    using reference_gram_weight [of exBoth, THEN conjunct1, rule_format,
        of "\<lparr>gramWeight = 150, portionDescription = ''1 breast'', reasoning = None\<rparr>"]
    by (simp add: exBoth_def)
  moreover have "originalGramWeight exSlices = 56"
  proof -
    have "gramMatch (serving_info exSlices) = Some ''56''"
      by (simp add: exSlices_def matchAt_def isDigit_def)
    then obtain i n where f: "firstDigitsBeforeG (serving_info exSlices) i n"
        "take n (drop i (serving_info exSlices)) = ''56''"
      using gramMatch_Some_first by blast
    have v: "parseFloatDigits ''56'' = 56"
      by (simp add: parseFloatDigits_def digitValue_def)
    have a: "ai_selected_portion exSlices = None"
      by (simp add: exSlices_def)
    show ?thesis
      using reference_gram_weight [of exSlices, THEN conjunct2, THEN conjunct1, rule_format,
          THEN conjunct1, rule_format, of i n] f v a
      by simp
  qed
  moreover have "originalGramWeight exCup = 240"
  proof -
    have "gramMatch (serving_info exCup) = Some ''0''"
      by (simp add: exCup_def matchAt_def isDigit_def)
    then obtain i n where f: "firstDigitsBeforeG (serving_info exCup) i n"
        "take n (drop i (serving_info exCup)) = ''0''"
      using gramMatch_Some_first by blast
    have v: "parseFloatDigits ''0'' = 0"
      by (simp add: parseFloatDigits_def digitValue_def)
    have a: "\<exists>p. ai_selected_portion exCup = Some p \<and> gramWeight p = 0"
      by (simp add: exCup_def)
    have m: "foodMeasures exCup =
        \<lparr>label = Some ''cup'', measure_portionDescription = None, measure_unit = None,
          measure_gramWeight = None, gram_weight = Some 240\<rparr> # []"
      by (simp add: exCup_def)
    have z: "(\<forall>i n. \<not> firstDigitsBeforeG (serving_info exCup) i n)
          \<or> (\<exists>i n. firstDigitsBeforeG (serving_info exCup) i n
                \<and> parseFloatDigits (take n (drop i (serving_info exCup))) = 0)"
    proof -
      have "parseFloatDigits (take n (drop i (serving_info exCup))) = 0"
        using f(2) v by simp
      then show ?thesis
        using f(1) by blast
    qed
    have a': "ai_selected_portion exCup = None
        \<or> (\<exists>p. ai_selected_portion exCup = Some p \<and> gramWeight p = 0)"
      using a by (rule disjI2)
    note t1 = reference_gram_weight [of exCup, THEN conjunct2, THEN conjunct1, rule_format,
        OF a', THEN conjunct2, rule_format, OF z, THEN conjunct2, rule_format, OF m]
    show ?thesis
      using t1 [THEN conjunct2, rule_format, THEN conjunct1, rule_format, of 240]
      by simp
  qed
  ultimately show ?thesis
    by (simp add: exBoth_def)
qed

section \<open>Rescale and reset\<close>

text \<open>
  Claim C2 as stated fails: \<open>originalNutrients\<close> is an optional field of the ingredients
  of a response, and \<open>logFood\<close> stores them as they arrive. The sample rice arrives with
  the nutrients 400, 20, 40, 10 and with \<open>originalNutrients\<close> 200, 10, 20, 5; its first
  rescale in this store, to 150 g, keeps that field, and the reset then sets the
  nutrients 200, 10, 20, 5, not the 400, 20, 40, 10 it had before this rescale.
\<close>

theorem rescale_reset_not_restoring:
  "loggedMeals (run exRiceLogged) = [exMeal]
   \<and> nutrients (ingredients (loggedMeals (run exRiceLogged) ! 0) ! 0) =
       \<lparr>calories = 400, protein = 20, carbs = 40, fat = 10\<rparr>
   \<and> nutrients (ingredients (loggedMeals
        (run (exRiceLogged @ [SelectMeasurement 0 0 0 150])) ! 0) ! 0) =
       \<lparr>calories = 300, protein = 15, carbs = 30, fat = 15 / 2\<rparr>
   \<and> nutrients (ingredients (loggedMeals
        (run (exRiceLogged @ [SelectMeasurement 0 0 0 150, ResetNutrition 0 0])) ! 0) ! 0) =
       \<lparr>calories = 200, protein = 10, carbs = 20, fat = 5\<rparr>"
proof -
  have t: "trim ''rice'' \<noteq> []"
    by (simp add: trim_def isSpace_def)
  have w: "originalGramWeight exIngredient = 100"
    by (simp add: resolve_defs exIngredient_def)
  have o: "originalNutrients exIngredient = Some exOriginal" "ingredients exMeal = [exIngredient]"
      "nutrients exIngredient = \<lparr>calories = 400, protein = 20, carbs = 40, fat = 10\<rparr>"
    by (simp_all add: exIngredient_def exMeal_def)
  have n: "newNutrients exOriginal (ddiv 150 100) =
      \<lparr>calories = 300, protein = 15, carbs = 30, fat = 15 / 2\<rparr>"
    by (simp add: newNutrients_def exOriginal_def double_simps)
  have l: "loggedMeals (run exRiceLogged) = [exMeal]"
    by (simp add: run_def exRiceLogged_def initialState_def logFood_def logFood_try_def t
        recalculateDailyTotals_def Let_def)
  have r: "loggedMeals (run (exRiceLogged @ [SelectMeasurement 0 0 0 150])) =
      [exMeal\<lparr>ingredients := [exIngredient\<lparr>nutrients := newNutrients exOriginal (ddiv 150 100)\<rparr>],
              total_nutrients := sumIngredients
                [exIngredient\<lparr>nutrients := newNutrients exOriginal (ddiv 150 100)\<rparr>]\<rparr>]"
    unfolding run_snoc
    by (simp add: l o w orUnchanged_def selectMeasurement_def recalculateIngredientNutrition_def
        snapshot_def storeIngredient_def setIngredient_def recalculateMealTotals_def
        recalculateDailyTotals_def Let_def)
       (simp add: exIngredient_def)
  have "run (exRiceLogged @ [SelectMeasurement 0 0 0 150, ResetNutrition 0 0]) =
      step (run (exRiceLogged @ [SelectMeasurement 0 0 0 150])) (ResetNutrition 0 0)"
    using run_snoc [of "exRiceLogged @ [SelectMeasurement 0 0 0 150]" "ResetNutrition 0 0"]
    by simp
  then have "nutrients (ingredients (loggedMeals
        (run (exRiceLogged @ [SelectMeasurement 0 0 0 150, ResetNutrition 0 0])) ! 0) ! 0) =
      exOriginal"
    by (simp add: r o orUnchanged_def resetToOriginalNutrition_def storeIngredient_def
        setIngredient_def recalculateMealTotals_def recalculateDailyTotals_def Let_def)
  then show ?thesis
    by (simp add: l o r n) (simp add: exOriginal_def)
qed

text \<open>
  Claim C2, amended. Take an ingredient of a logged meal, its snapshot \<open>orig\<close> (its
  \<open>originalNutrients\<close> when it has them, and its nutrients when it has none), and
  any events after which its meal is still logged, at position \<open>mi1\<close>: rescales and
  resets of this or of other ingredients, new batches of meals, removals of other
  meals. A rescale of the ingredient to a positive weight followed by a reset then
  succeeds and leaves the ingredient with exactly the nutrients \<open>orig\<close>, no arithmetic
  being done on them; \<open>originalNutrients\<close>, once set, is \<open>orig\<close> and is never replaced.
  So an ingredient that had no \<open>originalNutrients\<close> at the start gets back exactly the
  nutrients it had then, before its first rescale.
\<close>

theorem rescale_reset_roundtrip:
  assumes "mi < length (loggedMeals s0)"
    and "ii < length (ingredients (loggedMeals s0 ! mi))"
    and "ingredient = ingredients (loggedMeals s0 ! mi) ! ii"
    and "orig = (case originalNutrients ingredient of
                   None \<Rightarrow> nutrients ingredient | Some n \<Rightarrow> n)"
    and "trackMeal mi evs = Some mi1"
    and "0 < W"
    and "0 < originalGramWeight ingredient"
    and "s1 = foldl step s0 evs"
  shows "\<exists>s2 s3.
      recalculateIngredientNutrition mi1 ii W (loggedMeals s1) s1 = Inr s2
    \<and> resetToOriginalNutrition mi1 ii s2 = Inr s3
    \<and> nutrients (ingredients (loggedMeals s3 ! mi1) ! ii) = orig
    \<and> originalNutrients (ingredients (loggedMeals s2 ! mi1) ! ii) = Some orig
    \<and> originalNutrients (ingredients (loggedMeals s3 ! mi1) ! ii) = Some orig
    \<and> (originalNutrients (ingredients (loggedMeals s1 ! mi1) ! ii) = None
        \<or> originalNutrients (ingredients (loggedMeals s1 ! mi1) ! ii) = Some orig)
    \<and> (originalNutrients ingredient = None \<longrightarrow>
         nutrients (ingredients (loggedMeals s3 ! mi1) ! ii) = nutrients ingredient)"
proof -
  define ing1 where "ing1 = ingredients (loggedMeals s1 ! mi1) ! ii"
  have snap0: "snapshot (ingredients (loggedMeals s0 ! mi) ! ii) = orig"
    unfolding assms(3) [symmetric] by (simp add: snapshot_def assms(4))
  have inv: "mi1 < length (loggedMeals s1)" "ii < length (ingredients (loggedMeals s1 ! mi1))"
      "0 < originalGramWeight ing1" "snapshot ing1 = orig"
    using steps_keep_ingredient [OF assms(5,1,2)] assms(7) snap0
    unfolding assms(8) ing1_def assms(3) by simp_all
  have before: "originalNutrients ing1 = None \<or> originalNutrients ing1 = Some orig"
    using inv(4) by (cases "originalNutrients ing1") (simp_all add: snapshot_def)
  define x where "x = ing1\<lparr>originalNutrients := Some orig,
      nutrients := newNutrients orig (ddiv W (originalGramWeight ing1))\<rparr>"
  have r: "recalculateIngredientNutrition mi1 ii W (loggedMeals s1) s1 =
      storeIngredient mi1 ii x (loggedMeals s1) s1"
    using rescale_success [OF inv(1,2) _ assms(6), of s1] inv(3,4)
    unfolding ing1_def x_def by simp
  obtain s2 where s2: "storeIngredient mi1 ii x (loggedMeals s1) s1 = Inr s2"
    using storeIngredient_result [OF inv(1,2), of x s1] by blast
  note at2 = stored_ingredient_at [OF s2 inv(1,2)]
  have i2: "mi1 < length (loggedMeals s2)" "ii < length (ingredients (loggedMeals s2 ! mi1))"
      "ingredients (loggedMeals s2 ! mi1) ! ii = x"
    using at2 inv(1,2) by simp_all
  have o2: "originalNutrients (ingredients (loggedMeals s2 ! mi1) ! ii) = Some orig"
    unfolding i2(3) by (simp add: x_def)
  have t: "resetToOriginalNutrition mi1 ii s2 =
      storeIngredient mi1 ii (x\<lparr>nutrients := orig\<rparr>) (loggedMeals s2) s2"
    using reset_success [OF i2(1,2) o2] unfolding i2(3) .
  obtain s3 where s3: "storeIngredient mi1 ii (x\<lparr>nutrients := orig\<rparr>) (loggedMeals s2) s2 = Inr s3"
    using storeIngredient_result [OF i2(1,2), of "x\<lparr>nutrients := orig\<rparr>" s2] by blast
  have i3: "ingredients (loggedMeals s3 ! mi1) ! ii = x\<lparr>nutrients := orig\<rparr>"
    using stored_ingredient_at(3) [OF s3 i2(1,2)] by simp
  have n3: "nutrients (ingredients (loggedMeals s3 ! mi1) ! ii) = orig"
      "originalNutrients (ingredients (loggedMeals s3 ! mi1) ! ii) = Some orig"
    unfolding i3 by (simp_all add: x_def)
  have first: "originalNutrients ingredient = None \<longrightarrow> orig = nutrients ingredient"
    by (simp add: assms(4))
  have r2: "recalculateIngredientNutrition mi1 ii W (loggedMeals s1) s1 = Inr s2"
    by (simp add: r s2)
  have t3: "resetToOriginalNutrition mi1 ii s2 = Inr s3"
    by (simp add: t s3)
  show ?thesis
    using r2 t3 n3 o2 before first unfolding ing1_def
    by - (rule exI [of _ s2], rule exI [of _ s3], simp)
qed

text \<open>
  Claim C2, amended, on the sample egg, in the second of two meals and without
  \<open>originalNutrients\<close>: after rescales to 100 g and 75 g, the removal of the first meal,
  a reset and a rescale to 20 g, which leaves it 29, 2.5, 0.1 and 1.9 at position 0, a
  rescale to 25 g and a reset give back 71.5, 6.28, 0.36 and 4.76.
\<close>

theorem rescale_reset_example:
  "originalNutrients exEgg = None
   \<and> nutrients exEgg = \<lparr>calories = 143 / 2, protein = toDouble (157 / 25),
                         carbs = toDouble (9 / 25), fat = toDouble (119 / 25)\<rparr>
   \<and> trackMeal 1 exEggEvents = Some 0
   \<and> nutrients (ingredients (loggedMeals (foldl step exSoupEggState exEggEvents) ! 0) ! 0) =
       \<lparr>calories = 29, protein = ddiv 25 10, carbs = ddiv 1 10, fat = ddiv 19 10\<rparr>
   \<and> (\<exists>s2 s3.
        recalculateIngredientNutrition 0 0 25
          (loggedMeals (foldl step exSoupEggState exEggEvents))
          (foldl step exSoupEggState exEggEvents) = Inr s2
      \<and> resetToOriginalNutrition 0 0 s2 = Inr s3
      \<and> nutrients (ingredients (loggedMeals s3 ! 0) ! 0) =
          \<lparr>calories = 143 / 2, protein = toDouble (157 / 25),
           carbs = toDouble (9 / 25), fat = toDouble (119 / 25)\<rparr>)"
proof -
  have w: "originalGramWeight exEgg = 50"
    by (simp add: resolve_defs exEgg_def)
  have e: "loggedMeals exSoupEggState = [exSoupMeal, exEggMeal]" "ingredients exEggMeal = [exEgg]"
      "originalNutrients exEgg = None"
      "nutrients exEgg = \<lparr>calories = 143 / 2, protein = toDouble (157 / 25),
                         carbs = toDouble (9 / 25), fat = toDouble (119 / 25)\<rparr>"
    by (simp_all add: exSoupEggState_def exEggMeal_def exEgg_def)
  have k: "trackMeal 1 exEggEvents = Some 0"
    by (simp add: exEggEvents_def)
  have u: "originalGramWeight (exEgg\<lparr>originalNutrients := a, nutrients := b\<rparr>) = 50"
      "originalGramWeight (exEgg\<lparr>originalNutrients := a\<rparr>) = 50" for a b
    using originalGramWeight_update [where ing = exEgg] w
    by (simp_all add: resolve_defs exEgg_def)
  have s1: "ingredients (loggedMeals (foldl step exSoupEggState exEggEvents) ! 0) ! 0 =
      exEgg\<lparr>originalNutrients := Some (nutrients exEgg),
            nutrients := newNutrients (nutrients exEgg) (ddiv 20 50)\<rparr>"
    by (simp add: exEggEvents_def e(1,2,3) w u orUnchanged_def selectMeasurement_def
        handleCustomGramInput_def recalculateIngredientNutrition_def snapshot_def
        storeIngredient_def setIngredient_def recalculateMealTotals_def
        recalculateDailyTotals_def removeMeal_def filterIndex_eq
        resetToOriginalNutrition_def Let_def)
  have c: "Math_round (dmul (143 / 2) (ddiv 20 50)) = 29"
    by code_simp
  have p: "Math_round (dmul (dmul (toDouble (157 / 25)) (ddiv 20 50)) 10) = 25"
    by code_simp
  have g: "Math_round (dmul (dmul (toDouble (9 / 25)) (ddiv 20 50)) 10) = 1"
    by code_simp
  have f: "Math_round (dmul (dmul (toDouble (119 / 25)) (ddiv 20 50)) 10) = 19"
    by code_simp
  have n: "nutrients (ingredients (loggedMeals (foldl step exSoupEggState exEggEvents) ! 0) ! 0) =
       \<lparr>calories = 29, protein = ddiv 25 10, carbs = ddiv 1 10, fat = ddiv 19 10\<rparr>"
    unfolding s1 by (simp add: newNutrients_def exEgg_def c p g f)
  show ?thesis
    using rescale_reset_roundtrip [of 1 exSoupEggState 0 exEgg "nutrients exEgg" exEggEvents 0 25
        "foldl step exSoupEggState exEggEvents"] k n
    by (simp add: w e) blast
qed

end
